theory Spec2Isabelle
  imports Complex_Main "HOL-Library.Sublist" "HOL-Library.Multiset"
begin

section \<open>Python strings\<close>

text \<open>
  The program is \<^verbatim>\<open>src/main.py\<close>. Its strings are modelled as \<^typ>\<open>string\<close>, one
  \<^typ>\<open>char\<close> per Python character, for ASCII text: \<open>lower\<close> maps the letters A to Z,
  \<open>isspace\<close> holds of the ASCII white space Python strips, \<open>isdigit\<close> of the ten digits,
  and the non-ASCII glyphs of the report templates are written as their UTF-8 bytes.
  Python floats are modelled as \<^typ>\<open>real\<close>: the arithmetic is exact, rounding is not
  modelled.
\<close>

text \<open>\<^verbatim>\<open>s.startswith(p)\<close>\<close>

fun startswith :: "string \<Rightarrow> string \<Rightarrow> bool" where
  "startswith s [] = True"
| "startswith [] (p # ps) = False"
| "startswith (c # cs) (p # ps) = (c = p \<and> startswith cs ps)"

text \<open>\<^verbatim>\<open>s.endswith(p)\<close>\<close>

definition endswith :: "string \<Rightarrow> string \<Rightarrow> bool" where
  "endswith s p = startswith (rev s) (rev p)"

text \<open>\<^verbatim>\<open>sub in s\<close>\<close>

fun contains :: "string \<Rightarrow> string \<Rightarrow> bool" where
  "contains sub [] = (sub = [])"
| "contains sub (c # cs) = (startswith (c # cs) sub \<or> contains sub cs)"

text \<open>\<^verbatim>\<open>any(word in s for word in words)\<close>\<close>

fun any_in :: "string list \<Rightarrow> string \<Rightarrow> bool" where
  "any_in [] s = False"
| "any_in (w # ws) s = (contains w s \<or> any_in ws s)"

text \<open>\<^verbatim>\<open>s.lower()\<close>\<close>

definition lower_char :: "char \<Rightarrow> char" where
  "lower_char c =
     (case map_of (zip ''ABCDEFGHIJKLMNOPQRSTUVWXYZ'' ''abcdefghijklmnopqrstuvwxyz'') c of
        Some d \<Rightarrow> d
      | None \<Rightarrow> c)"

definition lower :: "string \<Rightarrow> string" where
  "lower s = map lower_char s"

text \<open>\<^verbatim>\<open>c.isspace()\<close> and \<^verbatim>\<open>c.isdigit()\<close>\<close>

definition isspace :: "char \<Rightarrow> bool" where
  "isspace c = (c \<in> set [CHR 0x09, CHR 0x0A, CHR 0x0B, CHR 0x0C, CHR 0x0D,
                          CHR 0x1C, CHR 0x1D, CHR 0x1E, CHR 0x1F, CHR 0x20])"

definition isdigit :: "char \<Rightarrow> bool" where
  "isdigit c = (c \<in> set ''0123456789'')"

text \<open>\<^verbatim>\<open>s.strip()\<close>, \<^verbatim>\<open>s.strip(chars)\<close> and \<^verbatim>\<open>s.rstrip(chars)\<close>\<close>

definition rstrip_where :: "(char \<Rightarrow> bool) \<Rightarrow> string \<Rightarrow> string" where
  "rstrip_where P s = rev (dropWhile P (rev s))"

definition strip_where :: "(char \<Rightarrow> bool) \<Rightarrow> string \<Rightarrow> string" where
  "strip_where P s = rstrip_where P (dropWhile P s)"

definition strip :: "string \<Rightarrow> string" where
  "strip s = strip_where isspace s"

definition strip_chars :: "string \<Rightarrow> string \<Rightarrow> string" where
  "strip_chars chars s = strip_where (\<lambda>c. c \<in> set chars) s"

definition rstrip_chars :: "string \<Rightarrow> string \<Rightarrow> string" where
  "rstrip_chars chars s = rstrip_where (\<lambda>c. c \<in> set chars) s"

text \<open>
  \<^verbatim>\<open>s.split(sep)\<close> for a non-empty separator: the occurrences of \<open>sep\<close> are found
  from the left and do not overlap. \<open>split_from sep acc rest\<close> holds the piece read so
  far in \<open>acc\<close>.
\<close>

fun split_from :: "string \<Rightarrow> string \<Rightarrow> string \<Rightarrow> string list" where
  "split_from sep acc [] = [acc]"
| "split_from sep acc (c # cs) =
     (if sep \<noteq> [] \<and> startswith (c # cs) sep
      then acc # split_from sep [] (drop (length sep - 1) cs)
      else split_from sep (acc @ [c]) cs)"

definition py_split :: "string \<Rightarrow> string \<Rightarrow> string list" where
  "py_split s sep = split_from sep [] s"

text \<open>\<^verbatim>\<open>s.split(sep, 1)\<close>: at most one cut, at the first occurrence.\<close>

fun split_once_from :: "string \<Rightarrow> string \<Rightarrow> string \<Rightarrow> string list" where
  "split_once_from sep acc [] = [acc]"
| "split_once_from sep acc (c # cs) =
     (if sep \<noteq> [] \<and> startswith (c # cs) sep
      then [acc, drop (length sep - 1) cs]
      else split_once_from sep (acc @ [c]) cs)"

definition py_split1 :: "string \<Rightarrow> string \<Rightarrow> string list" where
  "py_split1 s sep = split_once_from sep [] s"

text \<open>\<^verbatim>\<open>xs[i]\<close> for \<open>i \<ge> 0\<close>: \<open>None\<close> stands for the IndexError.\<close>

definition item :: "'a list \<Rightarrow> nat \<Rightarrow> 'a option" where
  "item xs i = (if i < length xs then Some (xs ! i) else None)"

text \<open>\<^verbatim>\<open>s.find(sub)\<close>: \<open>None\<close> stands for \<open>-1\<close>.\<close>

fun find_from :: "string \<Rightarrow> string \<Rightarrow> nat \<Rightarrow> nat option" where
  "find_from sub [] i = (if sub = [] then Some i else None)"
| "find_from sub (c # cs) i =
     (if startswith (c # cs) sub then Some i else find_from sub cs (Suc i))"

definition find :: "string \<Rightarrow> string \<Rightarrow> nat option" where
  "find s sub = find_from sub s 0"

text \<open>\<^verbatim>\<open>sep.join(xs)\<close>\<close>

fun join :: "string \<Rightarrow> string list \<Rightarrow> string" where
  "join sep [] = []"
| "join sep [x] = x"
| "join sep (x # y # ys) = x @ sep @ join sep (y # ys)"

text \<open>\<^verbatim>\<open>str(n)\<close> for an integer.\<close>

fun show_nat :: "nat \<Rightarrow> string" where
  "show_nat n =
     (if n < 10 then [''0123456789'' ! n]
      else show_nat (n div 10) @ [''0123456789'' ! (n mod 10)])"

declare show_nat.simps [simp del]

definition show_int :: "int \<Rightarrow> string" where
  "show_int i = (if i < 0 then ''-'' @ show_nat (nat (- i)) else show_nat (nat i))"

text \<open>\<^verbatim>\<open>enumerate(xs, start)\<close>\<close>

definition enumerate_from :: "nat \<Rightarrow> 'a list \<Rightarrow> (nat \<times> 'a) list" where
  "enumerate_from start xs = zip [start ..< start + length xs] xs"

section \<open>Data structures\<close>

text \<open>
  The dataclasses of the program. Field names are the program's, with a prefix where two
  dataclasses share a name: \<open>cid\<close> is \<^verbatim>\<open>Citation.id\<close>, \<open>plan_\<close> marks
  \<^verbatim>\<open>ResearchPlan\<close> and \<open>result_\<close> marks \<^verbatim>\<open>ResearchResult\<close>. A field
  of type \<^verbatim>\<open>Optional[str]\<close> is a \<^typ>\<open>string option\<close>.
\<close>

record Citation =
  cid :: nat
  title :: string
  url :: string
  source_type :: string
  publication_date :: "string option"
  author :: "string option"
  domain :: "string option"
  doi :: "string option"
  reliability_score :: real
  quality_score :: real

text \<open>\<^verbatim>\<open>Citation.to_apa_format\<close>\<close>

definition to_apa_format :: "Citation \<Rightarrow> string" where
  "to_apa_format c =
     (case author c of Some a \<Rightarrow> if a = [] then ''Unknown'' else a | None \<Rightarrow> ''Unknown'')
     @ '' (''
     @ (case publication_date c of Some d \<Rightarrow> if d = [] then ''n.d.'' else d | None \<Rightarrow> ''n.d.'')
     @ ''). '' @ title c @ ''. Retrieved from '' @ url c"

text \<open>The dictionary \<^verbatim>\<open>_extract_user_preferences\<close> builds: its four keys are fixed.\<close>

record user_preferences_dict =
  preferred_sources :: "string list"
  detail_level :: string
  focus_areas :: "string list"
  avoid_areas :: "string list"

record ResearchRequirement =
  original_question :: string
  clarified_question :: string
  research_depth :: string
  specific_requirements :: "string list"
  user_context :: "(string \<times> string) list"
  success_criteria :: "string list"
  user_preferences :: user_preferences_dict
  research_history :: "string list"
  expertise_level :: string

text \<open>A task of a plan: a dictionary with the keys id, description, agent, duration.\<close>

record task =
  task_id :: string
  description :: string
  agent :: string
  duration :: string

record ResearchPlan =
  plan_original_question :: string
  research_approach :: string
  tasks :: "task list"
  estimated_duration :: string
  plan_success_criteria :: "string list"
  required_agents :: "string list"

section \<open>Requirement gathering\<close>

text \<open>\<^verbatim>\<open>RequirementGatheringAgent._assess_expertise_level\<close>\<close>

definition assess_expertise_level :: "string \<Rightarrow> string" where
  "assess_expertise_level question =
     (let question_lower = lower question;
          expert_indicators =
            [''methodology'', ''framework'', ''paradigm'', ''theoretical'', ''empirical'',
             ''quantitative'', ''qualitative'', ''meta-analysis'', ''systematic review''];
          beginner_indicators =
            [''what is'', ''define'', ''explain'', ''basics'', ''introduction'', ''simple'']
      in if any_in expert_indicators question_lower then ''expert''
         else if any_in beginner_indicators question_lower then ''beginner''
         else ''intermediate'')"

text \<open>\<^verbatim>\<open>RequirementGatheringAgent._extract_user_preferences\<close>\<close>

definition extract_user_preferences :: "string \<Rightarrow> user_preferences_dict" where
  "extract_user_preferences question =
     (let question_lower = lower question;
          f0 = [];
          f1 = (if contains ''technical'' question_lower
                   \<or> contains ''technical details'' question_lower
                then f0 @ [''technical''] else f0);
          f2 = (if contains ''practical'' question_lower
                   \<or> contains ''application'' question_lower
                then f1 @ [''practical''] else f1);
          f3 = (if contains ''academic'' question_lower
                   \<or> contains ''research'' question_lower
                then f2 @ [''academic''] else f2);
          level = (if contains ''detailed'' question_lower
                      \<or> contains ''comprehensive'' question_lower
                   then ''high''
                   else if contains ''brief'' question_lower
                           \<or> contains ''summary'' question_lower
                   then ''low''
                   else ''standard'')
      in \<lparr>preferred_sources = [], detail_level = level, focus_areas = f3,
          avoid_areas = []\<rparr>)"

text \<open>
  \<^verbatim>\<open>RequirementGatheringAgent._parse_requirements\<close>. The agent's response is a
  parameter the function never reads.
\<close>

definition parse_requirements :: "string \<Rightarrow> string \<Rightarrow> ResearchRequirement" where
  "parse_requirements original response =
     (let question_lower = lower original;
          depth =
            (if any_in [''compare'', ''analyze'', ''evaluate'', ''comprehensive'', ''detailed'']
                  question_lower
             then ''deep''
             else if any_in [''what is'', ''define'', ''explain''] question_lower
             then ''standard''
             else ''standard'')
      in \<lparr>original_question = original,
          clarified_question = original,
          research_depth = depth,
          specific_requirements = [],
          user_context = [],
          success_criteria = [''Comprehensive research report with sources''],
          user_preferences = extract_user_preferences original,
          research_history = [],
          expertise_level = assess_expertise_level original\<rparr>)"

section \<open>Planning\<close>

definition basic_tasks :: "task list" where
  "basic_tasks =
     [\<lparr>task_id = ''search_basic'', description = ''Basic search for key facts'',
        agent = ''Search'', duration = ''5-10 min''\<rparr>,
      \<lparr>task_id = ''synthesize_basic'', description = ''Synthesize basic findings'',
        agent = ''Reflection'', duration = ''5-10 min''\<rparr>]"

definition standard_tasks :: "task list" where
  "standard_tasks =
     [\<lparr>task_id = ''search_comprehensive'',
        description = ''Comprehensive search for facts and data'',
        agent = ''Search'', duration = ''10-15 min''\<rparr>,
      \<lparr>task_id = ''analyze_sources'', description = ''Analyze and validate sources'',
        agent = ''Reflection'', duration = ''5-10 min''\<rparr>,
      \<lparr>task_id = ''create_citations'', description = ''Create proper citations'',
        agent = ''Citations'', duration = ''5-10 min''\<rparr>]"

definition deep_tasks :: "task list" where
  "deep_tasks =
     [\<lparr>task_id = ''search_primary'', description = ''Primary source research'',
        agent = ''Search'', duration = ''15-20 min''\<rparr>,
      \<lparr>task_id = ''search_secondary'', description = ''Secondary source research'',
        agent = ''Search'', duration = ''10-15 min''\<rparr>,
      \<lparr>task_id = ''analyze_conflicts'', description = ''Analyze conflicting information'',
        agent = ''Reflection'', duration = ''10-15 min''\<rparr>,
      \<lparr>task_id = ''synthesize_findings'', description = ''Synthesize all findings'',
        agent = ''Reflection'', duration = ''10-15 min''\<rparr>,
      \<lparr>task_id = ''create_citations'', description = ''Create comprehensive citations'',
        agent = ''Citations'', duration = ''10-15 min''\<rparr>]"

text \<open>
  \<^verbatim>\<open>PlanningAgent._parse_plan\<close>. The agent's response is a parameter the function
  never reads.
\<close>

definition parse_plan :: "ResearchRequirement \<Rightarrow> string \<Rightarrow> ResearchPlan" where
  "parse_plan requirements response =
     (let ts = (if research_depth requirements = ''basic'' then basic_tasks
                else if research_depth requirements = ''standard'' then standard_tasks
                else deep_tasks)
      in \<lparr>plan_original_question = clarified_question requirements,
          research_approach =
            ''Multi-agent '' @ research_depth requirements @ '' research approach'',
          tasks = ts,
          estimated_duration =
            show_nat (length ts * 10) @ ''-'' @ show_nat (length ts * 15) @ '' minutes'',
          plan_success_criteria = success_criteria requirements,
          required_agents = [''Search'', ''Reflection'', ''Citations'']\<rparr>)"

section \<open>Search agent: source extraction and scoring\<close>

text \<open>
  \<^verbatim>\<open>SearchAgent._assess_source_quality\<close> updates the running score in two
  \<^verbatim>\<open>if/elif\<close> chains, one on the URL and one on the lower-cased title, and
  returns \<^verbatim>\<open>max(0.0, min(1.0, quality_score))\<close>. Each chain is a function of the
  running score \<open>q\<close>.
\<close>

definition url_adjusted :: "string \<Rightarrow> real \<Rightarrow> real" where
  "url_adjusted u q =
     (if contains ''.edu'' u \<or> contains ''.ac.'' u then q + 0.3
      else if contains ''.gov'' u then q + 0.25
      else if contains ''.org'' u then q + 0.15
      else if contains ''.com'' u then q + 0.05
      else q - 0.1)"

definition title_adjusted :: "string \<Rightarrow> real \<Rightarrow> real" where
  "title_adjusted title_lower q =
     (if any_in [''study'', ''research'', ''analysis'', ''report'', ''journal''] title_lower
      then q + 0.2
      else if any_in [''news'', ''article'', ''blog''] title_lower then q + 0.1
      else if any_in [''opinion'', ''editorial'', ''commentary''] title_lower then q - 0.1
      else q)"

definition assess_source_quality :: "string \<Rightarrow> string \<Rightarrow> real" where
  "assess_source_quality u t =
     max 0 (min 1 (title_adjusted (lower t) (url_adjusted u 0.5)))"

text \<open>\<^verbatim>\<open>SearchAgent._determine_source_type\<close>\<close>

definition determine_source_type :: "string \<Rightarrow> string" where
  "determine_source_type u =
     (if contains ''.edu'' u \<or> contains ''.ac.'' u then ''academic''
      else if contains ''.gov'' u then ''government''
      else if contains ''.org'' u then ''organization''
      else if contains ''.com'' u then ''commercial''
      else ''web'')"

text \<open>
  The title search of the \<^verbatim>\<open>*Source:\<close> branch of
  \<^verbatim>\<open>SearchAgent._extract_sources\<close>: the loop over
  \<^verbatim>\<open>range(max(0, i-3), i)\<close>, which stops at the first line that matches.
\<close>

fun source_title :: "string list \<Rightarrow> nat list \<Rightarrow> string option" where
  "source_title lines [] = Some ''Unknown Title''"
| "source_title lines (j # js) =
     (let l = lines ! j in
      if startswith l ''**'' \<and> endswith l ''**'' then Some (strip_chars ''*'' l)
      else if contains ''**'' l \<and> list_ex isdigit l then
        (let t = strip (strip_chars ''*'' l) in
         if t \<noteq> [] \<and> isdigit (hd t) \<and> contains ''. '' t
         then item (py_split1 t ''. '') 1
         else Some t)
      else source_title lines js)"

text \<open>The title search of the last branch: the loop over \<^verbatim>\<open>range(max(0, i-2), i)\<close>.\<close>

fun context_title :: "string list \<Rightarrow> nat list \<Rightarrow> string" where
  "context_title lines [] = ''Search Result''"
| "context_title lines (j # js) =
     (let l = lines ! j in
      if strip l \<noteq> [] \<and> \<not> startswith l ''*'' then strip l
      else context_title lines js)"

text \<open>
  The body of the \<^verbatim>\<open>try\<close> block of \<^verbatim>\<open>_extract_sources\<close> up to the
  clean-up of the URL, for line \<open>i\<close>: the title and the URL, or \<open>None\<close> where
  the block raises (an index out of range, or a variable that was never bound), which the
  \<^verbatim>\<open>except\<close> clause turns into skipping the line.
\<close>

definition parse_line :: "string list \<Rightarrow> nat \<Rightarrow> (string \<times> string) option" where
  "parse_line lines i =
     (let line = lines ! i in
      (case
         (if contains ''*Source:'' line then
            (case item (py_split line ''*Source:'') 1 of
               None \<Rightarrow> None
             | Some rest \<Rightarrow>
                 (case source_title lines [i - 3 ..< i] of
                    None \<Rightarrow> None
                  | Some t \<Rightarrow> Some (t, rstrip_chars ''*'' (strip rest))))
          else if contains ''['' line \<and> contains '']'' line then
            (case item (py_split line ''['') 1 of
               None \<Rightarrow> None
             | Some after_bracket \<Rightarrow>
                 (case item (py_split after_bracket '']'') 0 of
                    None \<Rightarrow> None
                  | Some t \<Rightarrow>
                      (case item (py_split line ''http'') 1 of
                         None \<Rightarrow> None
                       | Some after_http \<Rightarrow>
                           (case item (py_split after_http '' '') 0 of
                              None \<Rightarrow> None
                            | Some u \<Rightarrow>
                                Some (t, if \<not> startswith u ''http'' then ''http'' @ u
                                         else u)))))
          else
            (case find line ''http'' of
               None \<Rightarrow> None
             | Some url_start \<Rightarrow>
                 (case item (py_split (drop url_start line) '' '') 0 of
                    None \<Rightarrow> None
                  | Some head \<Rightarrow>
                      (case item (py_split head [CHR 0x0A]) 0 of
                         None \<Rightarrow> None
                       | Some u \<Rightarrow> Some (context_title lines [i - 2 ..< i], u)))))
       of
         None \<Rightarrow> None
       | Some (t, u) \<Rightarrow> Some (t, if \<not> startswith u ''http'' then ''http'' @ u else u)))"

text \<open>The \<^verbatim>\<open>Citation\<close> the loop appends, with the defaults of the dataclass.\<close>

definition new_citation :: "nat \<Rightarrow> string \<Rightarrow> string \<Rightarrow> Citation" where
  "new_citation n t u =
     \<lparr>cid = n, title = t, url = u, source_type = determine_source_type u,
      publication_date = None, author = None, domain = None, doi = None,
      reliability_score = 0.8, quality_score = assess_source_quality u t\<rparr>"

text \<open>The loop of \<^verbatim>\<open>_extract_sources\<close> over the lines still to read.\<close>

fun extract_loop :: "string list \<Rightarrow> nat list \<Rightarrow> Citation list \<Rightarrow> Citation list" where
  "extract_loop lines [] sources = sources"
| "extract_loop lines (i # js) sources =
     (if contains ''http'' (lines ! i) then
        (case parse_line lines i of
           Some (t, u) \<Rightarrow>
             extract_loop lines js (sources @ [new_citation (length sources + 1) t u])
         | None \<Rightarrow> extract_loop lines js sources)
      else extract_loop lines js sources)"

text \<open>\<^verbatim>\<open>SearchAgent._extract_sources\<close>\<close>

definition extract_sources :: "string \<Rightarrow> Citation list" where
  "extract_sources content =
     (let lines = py_split content [CHR 0x0A]
      in extract_loop lines [0 ..< length lines] [])"

text \<open>
  What the loop of \<^verbatim>\<open>_extract_sources\<close> establishes for every citation it
  appends: the scores and the kind are computed from the citation's own URL and title.
\<close>

definition scored :: "Citation \<Rightarrow> bool" where
  "scored c =
     (quality_score c = assess_source_quality (url c) (title c)
      \<and> source_type c = determine_source_type (url c)
      \<and> reliability_score c = 0.8)"

section \<open>Reflection agent: conflicts\<close>

text \<open>\<^verbatim>\<open>ReflectionAgent._extract_conflicts\<close>\<close>

definition conflict_keywords :: "string list" where
  "conflict_keywords =
     [''conflict'', ''contradiction'', ''disagreement'', ''opposing'', ''differing'',
      ''contrary'', ''inconsistent'', ''divergent'', ''clashing'', ''conflicting'',
      ''however'', ''but'', ''although'', ''despite'', ''whereas'', ''while'',
      ''on the other hand'', ''in contrast'', ''alternatively'']"

fun extract_conflicts_loop :: "string list \<Rightarrow> string list \<Rightarrow> string list" where
  "extract_conflicts_loop [] conflicts = conflicts"
| "extract_conflicts_loop (line # rest) conflicts =
     (if any_in conflict_keywords (lower line)
      then extract_conflicts_loop rest (conflicts @ [strip line])
      else extract_conflicts_loop rest conflicts)"

definition extract_conflicts :: "string \<Rightarrow> string list" where
  "extract_conflicts content = extract_conflicts_loop (py_split content [CHR 0x0A]) []"

text \<open>
  \<^verbatim>\<open>ReflectionAgent._categorize_conflicts\<close>. The dictionary \<^verbatim>\<open>categories\<close>
  is an association list in the order its four keys are inserted;
  \<open>dict_append k x d\<close> is \<^verbatim>\<open>d[k].append(x)\<close>. The \<^verbatim>\<open>if/elif\<close> chain of
  the loop body picks the key, \<open>conflict_category\<close>.
\<close>

definition dict_append :: "string \<Rightarrow> 'a \<Rightarrow> (string \<times> 'a list) list \<Rightarrow> (string \<times> 'a list) list" where
  "dict_append k x d = map (\<lambda>(k', v). if k' = k then (k', v @ [x]) else (k', v)) d"

definition temporal_words :: "string list" where
  "temporal_words = [''recent'', ''latest'', ''new'', ''old'', ''dated'', ''current'']"

definition methodological_words :: "string list" where
  "methodological_words = [''method'', ''approach'', ''study'', ''research'', ''analysis'']"

definition perspectival_words :: "string list" where
  "perspectival_words = [''perspective'', ''view'', ''opinion'', ''belief'', ''stance'']"

definition data_quality_words :: "string list" where
  "data_quality_words = [''quality'', ''reliable'', ''accurate'', ''valid'', ''credible'']"

definition conflict_category :: "string \<Rightarrow> string" where
  "conflict_category conflict =
     (let conflict_lower = lower conflict
      in if any_in temporal_words conflict_lower then ''temporal''
         else if any_in methodological_words conflict_lower then ''methodological''
         else if any_in perspectival_words conflict_lower then ''perspectival''
         else if any_in data_quality_words conflict_lower then ''data_quality''
         else ''perspectival'')"

fun categorize_loop ::
  "string list \<Rightarrow> (string \<times> string list) list \<Rightarrow> (string \<times> string list) list" where
  "categorize_loop [] categories = categories"
| "categorize_loop (conflict # rest) categories =
     categorize_loop rest (dict_append (conflict_category conflict) conflict categories)"

definition categorize_conflicts :: "string list \<Rightarrow> (string \<times> string list) list" where
  "categorize_conflicts conflicts =
     filter (\<lambda>(k, v). v \<noteq> [])
       (categorize_loop conflicts
          [(''temporal'', []), (''methodological'', []), (''perspectival'', []),
           (''data_quality'', [])])"

section \<open>Orchestrator: retry with backoff\<close>

text \<open>
  A raised exception is modelled by its message, the value of \<^verbatim>\<open>str(e)\<close>. A
  fallible call returns \<open>Inl e\<close> when it raises \<open>e\<close> and \<open>Inr v\<close> when it
  returns \<open>v\<close>.
\<close>

datatype exn = Exn string

fun str :: "exn \<Rightarrow> string" where
  "str (Exn m) = m"

text \<open>The test of the \<^verbatim>\<open>except\<close> clause of \<^verbatim>\<open>_retry_with_backoff\<close>.\<close>

definition transient :: "exn \<Rightarrow> bool" where
  "transient e =
     (contains ''500'' (str e) \<or> contains ''INTERNAL'' (str e) \<or> contains ''429'' (str e))"

text \<open>
  What a run of \<^verbatim>\<open>_retry_with_backoff\<close> did: how often it awaited \<open>func\<close>, the
  delays it slept, in order, and what it returned or raised.
\<close>

record 'a retry_run =
  calls :: nat
  sleeps :: "int list"
  outcome :: "exn + 'a"

text \<open>
  \<^verbatim>\<open>LeadResearchAgent._retry_with_backoff\<close>. The operation \<open>func\<close> is given
  by the outcome of each of its calls, numbered from 0; within one run the number of the
  call is the loop variable \<open>attempt\<close>. The loop
  \<^verbatim>\<open>for attempt in range(max_retries)\<close> is the recursion on \<open>attempt\<close>; its last
  branch is the statement after the loop.
\<close>

function retry_loop ::
  "(nat \<Rightarrow> exn + 'a) \<Rightarrow> int \<Rightarrow> int \<Rightarrow> nat \<Rightarrow> int list \<Rightarrow> 'a retry_run" where
  "retry_loop func max_retries base_delay attempt slept =
     (if int attempt < max_retries then
        (case func attempt of
           Inr v \<Rightarrow> \<lparr>calls = Suc attempt, sleeps = slept, outcome = Inr v\<rparr>
         | Inl e \<Rightarrow>
             if transient e then
               (if int attempt < max_retries - 1
                then retry_loop func max_retries base_delay (Suc attempt)
                       (slept @ [base_delay * 2 ^ attempt])
                else \<lparr>calls = Suc attempt, sleeps = slept, outcome = Inl e\<rparr>)
             else \<lparr>calls = Suc attempt, sleeps = slept, outcome = Inl e\<rparr>)
      else \<lparr>calls = attempt, sleeps = slept,
             outcome = Inl (Exn (''Failed after '' @ show_int max_retries @ '' attempts''))\<rparr>)"
  by pat_completeness auto
termination
  by (relation "measure (\<lambda>(func, max_retries, base_delay, attempt, slept).
                   nat (max_retries - int attempt))") auto

declare retry_loop.simps [simp del]

definition retry_with_backoff :: "(nat \<Rightarrow> exn + 'a) \<Rightarrow> int \<Rightarrow> int \<Rightarrow> 'a retry_run" where
  "retry_with_backoff func max_retries base_delay =
     retry_loop func max_retries base_delay 0 []"

section \<open>Orchestrator: rate limit\<close>

text \<open>
  \<^verbatim>\<open>LeadResearchAgent._rate_limit\<close> reads the clock, sleeps and writes
  \<^verbatim>\<open>self.last_api_call\<close>. The clock is part of the state: \<open>clock\<close> is what
  \<^verbatim>\<open>time.time()\<close> returns. Time only moves forward, and
  \<^verbatim>\<open>asyncio.sleep(t)\<close> returns when at least \<open>t\<close> seconds have passed; the
  parameter \<open>extra\<close> is the time one call takes beyond the sleep it asked for.
\<close>

record timed =
  clock :: real
  last_api_call :: real
  rate_limit_delay :: real

definition rate_limit :: "real \<Rightarrow> timed \<Rightarrow> timed" where
  "rate_limit extra s =
     (let current_time = clock s;
          time_since_last_call = current_time - last_api_call s;
          sleep_time = (if time_since_last_call < rate_limit_delay s
                        then rate_limit_delay s - time_since_last_call
                        else 0);
          now = current_time + sleep_time + extra
      in s\<lparr>clock := now, last_api_call := now\<rparr>)"

text \<open>
  Calls made one after the other: each element of the list is one call, given by the time
  \<open>gap\<close> that passes between the return of the previous call and this call, and by
  its \<open>extra\<close>. \<open>completions\<close> lists the times at which the calls return.
\<close>

fun acquire_all :: "(real \<times> real) list \<Rightarrow> timed \<Rightarrow> timed" where
  "acquire_all [] s = s"
| "acquire_all ((gap, extra) # rest) s =
     acquire_all rest (rate_limit extra (s\<lparr>clock := clock s + gap\<rparr>))"

fun completions :: "(real \<times> real) list \<Rightarrow> timed \<Rightarrow> real list" where
  "completions [] s = []"
| "completions ((gap, extra) # rest) s =
     clock (rate_limit extra (s\<lparr>clock := clock s + gap\<rparr>))
       # completions rest (rate_limit extra (s\<lparr>clock := clock s + gap\<rparr>))"


section \<open>Orchestrator: execution trace\<close>

text \<open>
  An entry of \<^verbatim>\<open>self.execution_trace\<close> and the counters of one agent in
  \<^verbatim>\<open>self.performance_metrics\<close>, a dictionary kept in the order its keys are
  inserted. \<open>entry_agent\<close> and \<open>entry_duration\<close> are the keys
  \<^verbatim>\<open>"agent"\<close> and \<^verbatim>\<open>"duration"\<close>.
\<close>

record trace_entry =
  timestamp :: real
  entry_agent :: string
  action :: string
  entry_duration :: "real option"
  success :: bool
  details :: string

record metrics =
  total_calls :: nat
  successful_calls :: nat
  total_duration :: real
  average_duration :: real

record orch =
  execution_trace :: "trace_entry list"
  performance_metrics :: "(string \<times> metrics) list"

text \<open>The update of one agent's counters in \<^verbatim>\<open>_log_execution\<close>.\<close>

definition count_call :: "bool \<Rightarrow> real option \<Rightarrow> metrics \<Rightarrow> metrics" where
  "count_call ok dur m =
     (let m1 = m\<lparr>total_calls := total_calls m + 1\<rparr>;
          m2 = (if ok then m1\<lparr>successful_calls := successful_calls m1 + 1\<rparr> else m1)
      in case dur of
           None \<Rightarrow> m2
         | Some d \<Rightarrow>
             if d = 0 then m2
             else m2\<lparr>total_duration := total_duration m2 + d,
                     average_duration := (total_duration m2 + d) / real (total_calls m2)\<rparr>)"

text \<open>
  \<^verbatim>\<open>LeadResearchAgent._log_execution\<close>; \<open>now\<close> is what \<^verbatim>\<open>time.time()\<close>
  returns.
\<close>

definition log_execution ::
  "real \<Rightarrow> string \<Rightarrow> string \<Rightarrow> real option \<Rightarrow> bool \<Rightarrow> string \<Rightarrow> orch \<Rightarrow> orch" where
  "log_execution now agent_name act dur ok det orc =
     (let log_entry = \<lparr>timestamp = now, entry_agent = agent_name, action = act,
                       entry_duration = dur, success = ok, details = det\<rparr>;
          pm = (if map_of (performance_metrics orc) agent_name = None
                then performance_metrics orc
                       @ [(agent_name, \<lparr>total_calls = 0, successful_calls = 0,
                                        total_duration = 0, average_duration = 0\<rparr>)]
                else performance_metrics orc)
      in orc\<lparr>execution_trace := execution_trace orc @ [log_entry],
              performance_metrics :=
                map (\<lambda>(k, m). if k = agent_name then (k, count_call ok dur m) else (k, m))
                  pm\<rparr>)"

text \<open>
  Every call of \<^verbatim>\<open>_log_execution\<close> in the program passes the agent, the action,
  \<^verbatim>\<open>success\<close> and \<^verbatim>\<open>details\<close>, and no duration. \<open>log_call clk c\<close> is
  such a call, \<open>clk k\<close> being the time at which entry number \<open>k\<close> of the trace is
  written; \<open>log_calls\<close> makes the calls of a list in order.
\<close>

type_synonym log_request = "string \<times> string \<times> bool \<times> string"

definition log_call :: "(nat \<Rightarrow> real) \<Rightarrow> log_request \<Rightarrow> orch \<Rightarrow> orch" where
  "log_call clk c orc =
     (case c of (agent_name, act, ok, det) \<Rightarrow>
        log_execution (clk (length (execution_trace orc))) agent_name act None ok det orc)"

fun log_calls :: "(nat \<Rightarrow> real) \<Rightarrow> log_request list \<Rightarrow> orch \<Rightarrow> orch" where
  "log_calls clk [] orc = orc"
| "log_calls clk (c # cs) orc = log_calls clk cs (log_call clk c orc)"

text \<open>\<^verbatim>\<open>LeadResearchAgent._calculate_success_rate\<close>\<close>

definition calculate_success_rate :: "orch \<Rightarrow> real" where
  "calculate_success_rate orc =
     (if execution_trace orc = [] then 0
      else (let successful = length (filter success (execution_trace orc));
                total = length (execution_trace orc)
            in if total > 0 then real successful / real total else 0))"

text \<open>\<^verbatim>\<open>LeadResearchAgent.get_execution_summary\<close>\<close>

record execution_summary =
  total_operations :: nat
  summary_trace :: "trace_entry list"
  summary_metrics :: "(string \<times> metrics) list"
  success_rate :: real

definition get_execution_summary :: "orch \<Rightarrow> execution_summary" where
  "get_execution_summary orc =
     \<lparr>total_operations = length (execution_trace orc),
      summary_trace = drop (length (execution_trace orc) - 10) (execution_trace orc),
      summary_metrics = performance_metrics orc,
      success_rate = calculate_success_rate orc\<rparr>"

section \<open>Objects and agents\<close>

text \<open>
  \<^verbatim>\<open>Citation\<close> objects are mutable and shared between lists, so they live in a
  store: \<open>citation_objects\<close> holds the objects, an object's address being its index,
  and \<open>list_objects\<close> holds the list objects whose identity matters, each a list of
  addresses of citations. A \<^verbatim>\<open>ResearchResult\<close> refers to its sources by address.
\<close>

record store =
  citation_objects :: "Citation list"
  list_objects :: "nat list list"

record ResearchResult =
  content :: string
  sources :: "nat list"
  confidence_level :: string
  conflicts_noted :: "string list"
  result_quality_score :: real

text \<open>
  \<^verbatim>\<open>SearchAgent.search\<close>. \<open>run\<close> stands for
  \<^verbatim>\<open>Runner.run(self.agent, search_prompt)\<close> as a function of the query the prompt
  is built from; the context is a parameter the function never reads. A call that raises
  leaves the store as it was; a call that returns has put the extracted citations into
  the store as new objects.
\<close>

definition search ::
  "(string \<Rightarrow> exn + string) \<Rightarrow> string \<Rightarrow> string \<Rightarrow> store \<Rightarrow> exn + (ResearchResult \<times> store)" where
  "search run query ctx st =
     (case run query of
        Inl e \<Rightarrow> Inl e
      | Inr final_output \<Rightarrow>
          (let new_objects = extract_sources final_output;
               first = length (citation_objects st)
           in Inr (\<lparr>content = final_output,
                    sources = [first ..< first + length new_objects],
                    confidence_level = ''high'',
                    conflicts_noted = [],
                    result_quality_score = 0.85\<rparr>,
                   st\<lparr>citation_objects := citation_objects st @ new_objects\<rparr>)))"

text \<open>
  \<^verbatim>\<open>ReflectionAgent.reflect\<close>. \<open>run\<close> stands for
  \<^verbatim>\<open>Runner.run(self.agent, reflection_prompt)\<close> as a function of the content and
  the context the prompt is built from.
\<close>

definition reflect ::
  "(string \<Rightarrow> string \<Rightarrow> exn + string) \<Rightarrow> string \<Rightarrow> string \<Rightarrow> exn + ResearchResult" where
  "reflect run research_content ctx =
     (case run research_content ctx of
        Inl e \<Rightarrow> Inl e
      | Inr final_output \<Rightarrow>
          Inr \<lparr>content = final_output,
               sources = [],
               confidence_level = ''high'',
               conflicts_noted = extract_conflicts final_output,
               result_quality_score = 0.9\<rparr>)"

text \<open>The body of the loop of \<^verbatim>\<open>create_citations\<close>, on the object at address \<open>r\<close>.\<close>

definition enhance :: "store \<Rightarrow> nat \<Rightarrow> store" where
  "enhance st r =
     st\<lparr>citation_objects :=
          (citation_objects st)
            [r := (citation_objects st ! r)\<lparr>author := Some ''Unknown'',
                                            publication_date := Some ''2024''\<rparr>]\<rparr>"

text \<open>
  \<^verbatim>\<open>CitationsAgent.create_citations\<close>, called with the list object at address
  \<open>sources_ref\<close>. \<open>run\<close> stands for
  \<^verbatim>\<open>Runner.run(self.agent, citations_prompt)\<close> as a function of the strings
  "title - url" the prompt is built from. The function returns the address it was given.
\<close>

definition create_citations ::
  "(string list \<Rightarrow> exn + string) \<Rightarrow> nat \<Rightarrow> store \<Rightarrow> exn + (nat \<times> store)" where
  "create_citations run sources_ref st =
     (case run (map (\<lambda>r. title (citation_objects st ! r) @ '' - ''
                          @ url (citation_objects st ! r))
                  (list_objects st ! sources_ref)) of
        Inl e \<Rightarrow> Inl e
      | Inr final_output \<Rightarrow>
          Inr (sources_ref, foldl enhance st (list_objects st ! sources_ref)))"

section \<open>Orchestrator: the environment of a run\<close>

text \<open>
  What a run of the orchestrator receives from outside. The five \<open>_run\<close> fields are
  the calls of \<^verbatim>\<open>Runner.run\<close>: each gives what the call returns or raises, as a
  function of what its prompt is built from and, for the calls made under
  \<^verbatim>\<open>_retry_with_backoff\<close>, of the number of the task and of the attempt.
  \<open>time_at k\<close> is the value of \<^verbatim>\<open>time.time()\<close> when entry \<open>k\<close> of the trace
  is written. The two schedules say in which order the tasks of a batch run by
  \<^verbatim>\<open>asyncio.gather\<close> write their entries into the trace. The two strings are the
  results of \<^verbatim>\<open>time.strftime\<close>, and the two formats are the float formats
  \<^verbatim>\<open>.1%\<close> and \<^verbatim>\<open>.1f\<close>.

  The run is the one made with \<^verbatim>\<open>stream_callback=None\<close>. The calls of
  \<^verbatim>\<open>_rate_limit\<close> only wait and write \<^verbatim>\<open>last_api_call\<close>, which nothing
  else reads, so they are left out of the run.
\<close>

record env =
  requirement_run :: "string \<Rightarrow> exn + string"
  planning_run :: "ResearchRequirement \<Rightarrow> exn + string"
  search_run :: "nat \<Rightarrow> nat \<Rightarrow> string \<Rightarrow> exn + string"
  reflection_run :: "nat \<Rightarrow> nat \<Rightarrow> string \<Rightarrow> string \<Rightarrow> exn + string"
  citations_run :: "nat \<Rightarrow> nat \<Rightarrow> string list \<Rightarrow> exn + string"
  time_at :: "nat \<Rightarrow> real"
  search_schedule :: "nat list"
  reflection_schedule :: "nat list"
  strftime_date :: string
  strftime_datetime :: string
  format_percent :: "real \<Rightarrow> string"
  format_fixed :: "real \<Rightarrow> string"

text \<open>\<^verbatim>\<open>RequirementGatheringAgent.gather_requirements\<close>\<close>

definition gather_requirements :: "env \<Rightarrow> string \<Rightarrow> exn + ResearchRequirement" where
  "gather_requirements ev user_input =
     (case requirement_run ev user_input of
        Inl e \<Rightarrow> Inl e
      | Inr response \<Rightarrow> Inr (parse_requirements user_input response))"

text \<open>\<^verbatim>\<open>PlanningAgent.create_plan\<close>\<close>

definition create_plan :: "env \<Rightarrow> ResearchRequirement \<Rightarrow> exn + ResearchPlan" where
  "create_plan ev requirements =
     (case planning_run ev requirements of
        Inl e \<Rightarrow> Inl e
      | Inr response \<Rightarrow> Inr (parse_plan requirements response))"

section \<open>Orchestrator: executing the plan\<close>

text \<open>
  The tasks of a batch run between their \<^verbatim>\<open>await\<close>s in an order the event loop
  chooses. Each task writes its trace entries in its own order;
  \<open>interleave schedule logs\<close> merges the entries of the tasks, taking the next entry of
  task \<open>k\<close> for each \<open>k\<close> of the schedule and, when the schedule is used up, what
  is left task by task.
\<close>

fun interleave :: "nat list \<Rightarrow> 'a list list \<Rightarrow> 'a list" where
  "interleave [] logs = concat logs"
| "interleave (k # ks) logs =
     (if k < length logs then
        (case logs ! k of
           [] \<Rightarrow> interleave ks logs
         | x # xs \<Rightarrow> x # interleave ks (logs[k := xs]))
      else interleave ks logs)"

text \<open>
  \<^verbatim>\<open>search_task_wrapper\<close> of \<^verbatim>\<open>_execute_research_plan\<close>: the entries the task
  writes and what the task returns or raises.
\<close>

definition search_task_wrapper ::
  "env \<Rightarrow> ResearchRequirement \<Rightarrow> task \<Rightarrow> nat \<Rightarrow> store
     \<Rightarrow> log_request list \<times> (exn + (ResearchResult \<times> store))" where
  "search_task_wrapper ev requirements tsk task_num st =
     (let result =
            outcome
              (retry_with_backoff
                 (\<lambda>attempt. search (search_run ev task_num attempt)
                      (clarified_question requirements) (''Task: '' @ description tsk) st)
                 3 5)
      in ((''LeadResearchAgent'', ''handoff_to_search_'' @ show_nat task_num, True,
           ''Handing off to Search Agent for: '' @ description tsk)
          # (case result of
               Inl e \<Rightarrow> []
             | Inr (r, st') \<Rightarrow>
                 [(''SearchAgent'', ''handoff_back_to_lead_'' @ show_nat task_num, True,
                   ''Returned '' @ show_nat (length (sources r)) @ '' sources'')]),
          result))"

text \<open>
  The batch of search tasks under \<^verbatim>\<open>asyncio.gather(..., return_exceptions=True)\<close>:
  for each task, in the order of the tasks, its entries and its result or the exception
  it raised. The citations of a task that returns are new objects of the store.
\<close>

fun search_batch ::
  "env \<Rightarrow> ResearchRequirement \<Rightarrow> (nat \<times> task) list \<Rightarrow> store
     \<Rightarrow> (log_request list \<times> (exn + ResearchResult)) list \<times> store" where
  "search_batch ev requirements [] st = ([], st)"
| "search_batch ev requirements ((i, tsk) # rest) st =
     (case search_task_wrapper ev requirements tsk i st of
        (logs, Inl e) \<Rightarrow>
          (case search_batch ev requirements rest st of
             (outs, st') \<Rightarrow> ((logs, Inl e) # outs, st'))
      | (logs, Inr (r, st1)) \<Rightarrow>
          (case search_batch ev requirements rest st1 of
             (outs, st') \<Rightarrow> ((logs, Inr r) # outs, st')))"

text \<open>The loop over the results of the search batch.\<close>

fun collect_search_results ::
  "(nat \<Rightarrow> real) \<Rightarrow> (nat \<times> (exn + ResearchResult)) list \<Rightarrow> ResearchResult list \<Rightarrow> orch
     \<Rightarrow> ResearchResult list \<times> orch" where
  "collect_search_results clk [] acc orc = (acc, orc)"
| "collect_search_results clk ((i, result) # rest) acc orc =
     (case result of
        Inl e \<Rightarrow>
          collect_search_results clk rest acc
            (log_call clk
               (''SearchAgent'', ''search_task_'' @ show_nat (i + 1) @ ''_failed'', False,
                str e) orc)
      | Inr r \<Rightarrow>
          collect_search_results clk rest (acc @ [r])
            (log_call clk
               (''SearchAgent'', ''search_task_'' @ show_nat (i + 1) @ ''_completed'', True,
                ''Found '' @ show_nat (length (sources r)) @ '' sources'') orc))"

text \<open>The block \<^verbatim>\<open>if search_tasks:\<close>.\<close>

definition search_phase ::
  "env \<Rightarrow> ResearchRequirement \<Rightarrow> task list \<Rightarrow> orch \<Rightarrow> store
     \<Rightarrow> ResearchResult list \<times> orch \<times> store" where
  "search_phase ev requirements search_tasks orc st =
     (if search_tasks = [] then ([], orc, st)
      else
        (case search_batch ev requirements (enumerate_from 1 search_tasks) st of
           (outs, st') \<Rightarrow>
             (case collect_search_results (time_at ev) (enumerate_from 0 (map snd outs)) []
                     (log_calls (time_at ev)
                        (interleave (search_schedule ev) (map fst outs)) orc) of
                (found, orc') \<Rightarrow> (found, orc', st'))))"

text \<open>\<^verbatim>\<open>reflection_task_wrapper\<close> of \<^verbatim>\<open>_execute_research_plan\<close>.\<close>

definition reflection_task_wrapper ::
  "env \<Rightarrow> task \<Rightarrow> string \<Rightarrow> nat \<Rightarrow> log_request list \<times> (exn + ResearchResult)" where
  "reflection_task_wrapper ev tsk research_content task_num =
     (let result =
            outcome
              (retry_with_backoff
                 (\<lambda>attempt. reflect (reflection_run ev task_num attempt) research_content
                      (''Task: '' @ description tsk))
                 3 5)
      in ((''LeadResearchAgent'', ''handoff_to_reflection_'' @ show_nat task_num, True,
           ''Handing off to Reflection Agent for: '' @ description tsk)
          # (case result of
               Inl e \<Rightarrow> []
             | Inr r \<Rightarrow>
                 [(''ReflectionAgent'', ''handoff_back_to_lead_'' @ show_nat task_num, True,
                   ''Confidence: '' @ confidence_level r)]),
          result))"

text \<open>
  The loop that builds \<^verbatim>\<open>reflection_coroutines\<close>: task number \<open>i\<close>, counted
  from 1, is bound to the content of
  \<^verbatim>\<open>results["search_results"][i % len(results["search_results"])]\<close>.
\<close>

definition reflection_coroutines ::
  "env \<Rightarrow> ResearchResult list \<Rightarrow> task list
     \<Rightarrow> (log_request list \<times> (exn + ResearchResult)) list" where
  "reflection_coroutines ev found reflection_tasks =
     map (\<lambda>(i, tsk).
            reflection_task_wrapper ev tsk (content (found ! (i mod length found))) i)
       (enumerate_from 1 reflection_tasks)"

text \<open>The loop over the results of the reflection batch.\<close>

fun collect_reflection_results ::
  "(nat \<Rightarrow> real) \<Rightarrow> (nat \<times> (exn + ResearchResult)) list \<Rightarrow> ResearchResult list \<Rightarrow> orch
     \<Rightarrow> ResearchResult list \<times> orch" where
  "collect_reflection_results clk [] acc orc = (acc, orc)"
| "collect_reflection_results clk ((i, result) # rest) acc orc =
     (case result of
        Inl e \<Rightarrow>
          collect_reflection_results clk rest acc
            (log_call clk
               (''ReflectionAgent'', ''reflection_task_'' @ show_nat (i + 1) @ ''_failed'',
                False, str e) orc)
      | Inr r \<Rightarrow>
          collect_reflection_results clk rest (acc @ [r])
            (log_call clk
               (''ReflectionAgent'', ''reflection_task_'' @ show_nat (i + 1) @ ''_completed'',
                True, ''Confidence: '' @ confidence_level r) orc))"

text \<open>The block \<^verbatim>\<open>if reflection_tasks and results["search_results"]:\<close>.\<close>

definition reflection_phase ::
  "env \<Rightarrow> ResearchResult list \<Rightarrow> task list \<Rightarrow> orch \<Rightarrow> ResearchResult list \<times> orch" where
  "reflection_phase ev found reflection_tasks orc =
     (if reflection_tasks \<noteq> [] \<and> found \<noteq> [] then
        (let outs = reflection_coroutines ev found reflection_tasks
         in collect_reflection_results (time_at ev) (enumerate_from 0 (map snd outs)) []
              (log_calls (time_at ev)
                 (interleave (reflection_schedule ev) (map fst outs)) orc))
      else ([], orc))"

text \<open>
  The loop over the citation tasks. \<open>all_sources\<close> is the address of the list object
  of that name, \<open>cits\<close> is \<^verbatim>\<open>results["citations"]\<close>. An exception of
  \<^verbatim>\<open>_retry_with_backoff\<close> is not caught here: it ends the loop and the function.
\<close>

fun citation_loop ::
  "env \<Rightarrow> nat \<Rightarrow> (nat \<times> task) list \<Rightarrow> nat list \<Rightarrow> orch \<Rightarrow> store
     \<Rightarrow> (exn + nat list) \<times> orch \<times> store" where
  "citation_loop ev all_sources [] cits orc st = (Inr cits, orc, st)"
| "citation_loop ev all_sources ((i, tsk) # rest) cits orc st =
     (let orc1 = log_call (time_at ev)
                   (''LeadResearchAgent'', ''handoff_to_citations_'' @ show_nat i, True,
                    ''Handing off to Citations Agent for: '' @ description tsk) orc
      in case outcome
                (retry_with_backoff
                   (\<lambda>attempt. create_citations (citations_run ev i attempt) all_sources st)
                   3 5) of
           Inl e \<Rightarrow> (Inl e, orc1, st)
         | Inr (created, st1) \<Rightarrow>
             citation_loop ev all_sources rest (cits @ list_objects st1 ! created)
               (log_call (time_at ev)
                  (''CitationsAgent'', ''handoff_back_to_lead_'' @ show_nat i, True,
                   ''Created '' @ show_nat (length (list_objects st1 ! created))
                     @ '' citations'') orc1)
               st1)"

text \<open>
  The block \<^verbatim>\<open>if citation_tasks:\<close>. The new list \<^verbatim>\<open>all_sources\<close> is a new
  object of the store, filled with the addresses of the sources of all search results.
\<close>

definition citation_phase ::
  "env \<Rightarrow> ResearchResult list \<Rightarrow> task list \<Rightarrow> orch \<Rightarrow> store
     \<Rightarrow> (exn + nat list) \<times> orch \<times> store" where
  "citation_phase ev found citation_tasks orc st =
     (if citation_tasks = [] then (Inr [], orc, st)
      else
        (let all_sources = length (list_objects st);
             st1 = st\<lparr>list_objects := list_objects st @ [concat (map sources found)]\<rparr>
         in if concat (map sources found) = [] then (Inr [], orc, st1)
            else citation_loop ev all_sources (enumerate_from 1 citation_tasks) [] orc st1))"

text \<open>The dictionary \<^verbatim>\<open>results\<close> of \<^verbatim>\<open>_execute_research_plan\<close>.\<close>

record results =
  search_results :: "ResearchResult list"
  reflection_results :: "ResearchResult list"
  citations :: "nat list"
  final_content :: string

text \<open>\<^verbatim>\<open>LeadResearchAgent._execute_research_plan\<close>\<close>

definition execute_research_plan ::
  "env \<Rightarrow> ResearchPlan \<Rightarrow> ResearchRequirement \<Rightarrow> orch \<Rightarrow> store
     \<Rightarrow> (exn + results) \<times> orch \<times> store" where
  "execute_research_plan ev plan requirements orc st =
     (let search_tasks = filter (\<lambda>t. agent t = ''Search'') (tasks plan);
          reflection_tasks = filter (\<lambda>t. agent t = ''Reflection'') (tasks plan);
          citation_tasks = filter (\<lambda>t. agent t = ''Citations'') (tasks plan)
      in case search_phase ev requirements search_tasks orc st of
           (found, orc1, st1) \<Rightarrow>
             (case reflection_phase ev found reflection_tasks orc1 of
                (reflected, orc2) \<Rightarrow>
                  (case citation_phase ev found citation_tasks orc2 st1 of
                     (Inl e, orc3, st3) \<Rightarrow> (Inl e, orc3, st3)
                   | (Inr cits, orc3, st3) \<Rightarrow>
                       (Inr \<lparr>search_results = found, reflection_results = reflected,
                             citations = cits, final_content = []\<rparr>,
                        orc3, st3))))"

section \<open>Orchestrator: the final report\<close>

text \<open>The glyphs of the templates that are not ASCII, as UTF-8 bytes.\<close>

definition bullet :: string where
  "bullet = [CHR 0xE2, CHR 0x80, CHR 0xA2]"

definition magnifier :: string where
  "magnifier = [CHR 0xF0, CHR 0x9F, CHR 0x94, CHR 0x8D]"

definition check_mark :: string where
  "check_mark = [CHR 0xE2, CHR 0x9C, CHR 0x85]"

definition arrow :: string where
  "arrow = [CHR 0xE2, CHR 0x86, CHR 0x92]"

text \<open>
  The three list comprehensions of the template of \<^verbatim>\<open>_create_final_report\<close>,
  each joined with \<^verbatim>\<open>chr(10)\<close>.
\<close>

definition finding :: "string \<Rightarrow> string" where
  "finding c =
     (if length c > 500 then bullet @ '' '' @ take 500 c @ ''...'' else bullet @ '' '' @ c)"

definition key_findings :: "string list \<Rightarrow> string" where
  "key_findings all_content = join ''\<newline>'' (map finding (take 5 all_content))"

definition detailed_results :: "string list \<Rightarrow> string" where
  "detailed_results all_content =
     join ''\<newline>''
       (map (\<lambda>(i, c). ''### Research Finding '' @ show_nat (i + 1) @ ''\<newline>'' @ c
                         @ ''\<newline>'')
          (enumerate_from 0 (take 3 all_content)))"

definition citation_lines :: "store \<Rightarrow> nat list \<Rightarrow> string" where
  "citation_lines st all_sources =
     join ''\<newline>''
       (map (\<lambda>(i, r). ''['' @ show_nat (i + 1) @ ''] ''
                         @ to_apa_format (citation_objects st ! r))
          (enumerate_from 0 (take 10 all_sources)))"

text \<open>The fixed text of the template, between the places it fills in.\<close>

definition report_head :: "env \<Rightarrow> ResearchRequirement \<Rightarrow> string" where
  "report_head ev requirements =
     ''\<newline># Research Report: '' @ clarified_question requirements
     @ ''\<newline>\<newline>**Date:** '' @ strftime_date ev
     @ ''\<newline>**Research Depth:** '' @ research_depth requirements
     @ ''\<newline>**Author:** Deep Research Agent System\<newline>\<newline>---\<newline>\<newline>''
     @ ''## Executive Summary\<newline>\<newline>''
     @ ''This comprehensive research report addresses: '' @ clarified_question requirements
     @ ''\<newline>\<newline>The research was conducted using a multi-agent system with ''
     @ ''specialized agents for search, analysis, and citation management.\<newline>\<newline>''"

definition methodology_text :: string where
  "methodology_text =
     ''## Research Methodology\<newline>\<newline>This research was conducted using:\<newline>''
     @ ''- **Search Agent**: Web search and data gathering using Tavily API\<newline>''
     @ ''- **Reflection Agent**: Analysis and synthesis of findings\<newline>''
     @ ''- **Citations Agent**: Reference management and formatting\<newline>\<newline>''
     @ ''## Quality Assessment\<newline>\<newline>- **Confidence Level**: High\<newline>''
     @ ''- **Source Quality**: Professional and academic sources\<newline>''
     @ ''- **Coverage**: Comprehensive\<newline>''"

definition report_foot :: "env \<Rightarrow> nat \<Rightarrow> string" where
  "report_foot ev n =
     methodology_text
     @ ''- **Search Results**: '' @ show_nat n @ '' sources found\<newline>\<newline>---\<newline>\<newline>''
     @ ''**Report Generated:** '' @ strftime_datetime ev @ ''\<newline>''"

text \<open>
  \<^verbatim>\<open>LeadResearchAgent._create_final_report\<close>. The citations are read from the store
  as they are when the report is written.
\<close>

definition create_final_report :: "env \<Rightarrow> ResearchRequirement \<Rightarrow> results \<Rightarrow> store \<Rightarrow> string" where
  "create_final_report ev requirements res st =
     (let all_content = map content (search_results res) @ map content (reflection_results res);
          all_sources = concat (map sources (search_results res))
      in report_head ev requirements
         @ ''## Key Findings\<newline>\<newline>'' @ key_findings all_content
         @ ''\<newline>\<newline>## Detailed Research Results\<newline>\<newline>''
         @ detailed_results all_content
         @ ''\<newline>\<newline>## Sources and Citations\<newline>\<newline>''
         @ citation_lines st all_sources
         @ ''\<newline>\<newline>'' @ report_foot ev (length all_sources))"

text \<open>
  The text \<^verbatim>\<open>conduct_research\<close> appends to the report, from the result of
  \<^verbatim>\<open>get_execution_summary\<close>.
\<close>

definition metrics_line :: "env \<Rightarrow> string \<times> metrics \<Rightarrow> string" where
  "metrics_line ev am =
     (case am of (agent_name, m) \<Rightarrow>
        ''- **'' @ agent_name @ '':** '' @ show_nat (successful_calls m) @ ''/''
        @ show_nat (total_calls m) @ '' calls, avg '' @ format_fixed ev (average_duration m)
        @ ''s\<newline>'')"

definition handoff_lines :: string where
  "handoff_lines =
     ''- **Lead '' @ arrow @ '' Requirement Gathering:** '' @ check_mark @ ''\<newline>''
     @ ''- **Lead '' @ arrow @ '' Planning:** '' @ check_mark @ ''\<newline>''
     @ ''- **Lead '' @ arrow @ '' Search Agents:** '' @ check_mark @ ''\<newline>''
     @ ''- **Lead '' @ arrow @ '' Reflection Agents:** '' @ check_mark @ ''\<newline>''
     @ ''- **Lead '' @ arrow @ '' Citations Agents:** '' @ check_mark @ ''\<newline>''"

definition execution_summary_text :: "env \<Rightarrow> execution_summary \<Rightarrow> string" where
  "execution_summary_text ev summary =
     (let handoff_events = filter (\<lambda>entry. contains ''handoff'' (action entry))
                             (summary_trace summary)
      in ''\<newline>\<newline>## '' @ magnifier @ '' **Execution Summary**\<newline>\<newline>''
         @ ''**Total Operations:** '' @ show_nat (total_operations summary) @ ''\<newline>''
         @ ''**Success Rate:** '' @ format_percent ev (success_rate summary) @ ''\<newline>''
         @ ''**Performance Metrics:**\<newline>''
         @ concat (map (metrics_line ev) (summary_metrics summary))
         @ (if handoff_events \<noteq> []
            then ''\<newline>**Handoff Events:** '' @ show_nat (length handoff_events)
                 @ ''\<newline>'' @ handoff_lines
            else []))"

section \<open>Orchestrator: the pipeline\<close>

text \<open>
  \<^verbatim>\<open>LeadResearchAgent.conduct_research\<close>: what it returns or raises, and the
  orchestrator and the store it leaves.
\<close>

definition conduct_research ::
  "env \<Rightarrow> string \<Rightarrow> orch \<Rightarrow> store \<Rightarrow> (exn + string) \<times> orch \<times> store" where
  "conduct_research ev user_input orc st =
     (let orc1 = log_call (time_at ev)
                   (''LeadResearchAgent'', ''handoff_to_requirement_gathering'', True,
                    ''Handing off to Requirement Gathering Agent'') orc
      in case gather_requirements ev user_input of
           Inl e \<Rightarrow> (Inl e, orc1, st)
         | Inr requirements \<Rightarrow>
             (let orc2 = log_call (time_at ev)
                           (''RequirementGatheringAgent'', ''handoff_back_to_lead'', True,
                            ''Gathered requirements: '' @ clarified_question requirements)
                           orc1;
                  orc3 = log_call (time_at ev)
                           (''LeadResearchAgent'', ''handoff_to_planning'', True,
                            ''Handing off to Planning Agent'') orc2
              in case create_plan ev requirements of
                   Inl e \<Rightarrow> (Inl e, orc3, st)
                 | Inr plan \<Rightarrow>
                     (let orc4 = log_call (time_at ev)
                                   (''PlanningAgent'', ''handoff_back_to_lead'', True,
                                    ''Created plan with '' @ show_nat (length (tasks plan))
                                      @ '' tasks'') orc3;
                          orc5 = log_call (time_at ev)
                                   (''LeadResearchAgent'', ''handoff_to_research_execution'',
                                    True, ''Handing off to Research Execution phase'') orc4
                      in case execute_research_plan ev plan requirements orc5 st of
                           (Inl e, orc6, st6) \<Rightarrow> (Inl e, orc6, st6)
                         | (Inr research_results, orc6, st6) \<Rightarrow>
                             (let orc7 = log_call (time_at ev)
                                           (''ResearchExecution'', ''handoff_back_to_lead'',
                                            True,
                                            ''Completed research with ''
                                              @ show_nat
                                                  (length (search_results research_results))
                                              @ '' search results'') orc6
                              in (Inr (create_final_report ev requirements research_results
                                         st6
                                       @ execution_summary_text ev
                                           (get_execution_summary orc7)),
                                  orc7, st6)))))"

section \<open>Notions for stating the results\<close>

text \<open>
  The arguments of the call of \<^verbatim>\<open>_log_execution\<close> that wrote a trace entry, and
  the results among the outcomes of a batch, in their order.
\<close>

definition request_of :: "trace_entry \<Rightarrow> log_request" where
  "request_of entry = (entry_agent entry, action entry, success entry, details entry)"

fun successes :: "(exn + 'a) list \<Rightarrow> 'a list" where
  "successes [] = []"
| "successes (Inl e # rest) = successes rest"
| "successes (Inr r # rest) = r # successes rest"

text \<open>The requests an orchestrator has logged so far.\<close>

definition logged :: "orch \<Rightarrow> log_request list" where
  "logged orc = map request_of (execution_trace orc)"

text \<open>Every source of a result is the address of an object of the store.\<close>

definition sources_in :: "store \<Rightarrow> ResearchResult \<Rightarrow> bool" where
  "sources_in st r = list_all (\<lambda>a. a < length (citation_objects st)) (sources r)"

text \<open>A citation as the loop of \<^verbatim>\<open>create_citations\<close> leaves it.\<close>

definition enhanced :: "Citation \<Rightarrow> Citation" where
  "enhanced c = c\<lparr>author := Some ''Unknown'', publication_date := Some ''2024''\<rparr>"

section \<open>Inputs for concrete runs\<close>

text \<open>
  A small environment, given by what the search of each task returns or raises: every
  reflection call returns the content it was given, every citation call returns, and the
  clock, the schedules and the formats are trivial. A plan is given by the agents of its
  tasks. The orchestrator starts with an empty trace and the store with no objects.
\<close>

definition quiet_env :: "(nat \<Rightarrow> exn + string) \<Rightarrow> env" where
  "quiet_env searches =
     \<lparr>requirement_run = (\<lambda>q. Inr []),
      planning_run = (\<lambda>r. Inr []),
      search_run = (\<lambda>k a q. searches k),
      reflection_run = (\<lambda>k a c x. Inr c),
      citations_run = (\<lambda>k a ts. Inr []),
      time_at = (\<lambda>k. 0),
      search_schedule = [],
      reflection_schedule = [],
      strftime_date = [],
      strftime_datetime = [],
      format_percent = (\<lambda>r. []),
      format_fixed = (\<lambda>r. [])\<rparr>"

definition plan_of :: "string list \<Rightarrow> ResearchPlan" where
  "plan_of agents =
     \<lparr>plan_original_question = [], research_approach = [],
      tasks = map (\<lambda>a. \<lparr>task_id = [], description = [], agent = a, duration = []\<rparr>) agents,
      estimated_duration = [], plan_success_criteria = [], required_agents = []\<rparr>"

definition fresh_orch :: orch where
  "fresh_orch = \<lparr>execution_trace = [], performance_metrics = []\<rparr>"

definition empty_store :: store where
  "empty_store = \<lparr>citation_objects = [], list_objects = []\<rparr>"

text \<open>Two citations, and a store that holds them and the list object of the second.\<close>

definition citation_a :: Citation where
  "citation_a =
     \<lparr>cid = 1, title = ''A'', url = ''http://a.org'', source_type = ''organization'',
      publication_date = None, author = None, domain = None, doi = None,
      reliability_score = 0.8, quality_score = 0.65\<rparr>"

definition citation_b :: Citation where
  "citation_b =
     \<lparr>cid = 2, title = ''B'', url = ''http://b.com'', source_type = ''commercial'',
      publication_date = None, author = None, domain = None, doi = None,
      reliability_score = 0.8, quality_score = 0.55\<rparr>"

definition store_ab :: store where
  "store_ab = \<lparr>citation_objects = [citation_a, citation_b], list_objects = [[1]]\<rparr>"

section \<open>String facts\<close>

lemma startswith_prefix: "startswith s p = prefix p s"
  by (induction s p rule: startswith.induct) auto

lemma contains_sublist: "contains sub s = sublist sub s"
  by (induction s) (auto simp: startswith_prefix sublist_Cons_right)

lemma contains_iff: "contains sub s \<longleftrightarrow> (\<exists>ps ss. s = ps @ sub @ ss)"
  by (simp add: contains_sublist sublist_def)

section \<open>The depth tier of a parsed requirement\<close>

lemma parse_requirements_depth_cases:
  "research_depth (parse_requirements original response) = ''deep''
   \<or> research_depth (parse_requirements original response) = ''standard''"
  by (simp add: parse_requirements_def Let_def)

text \<open>
  Claim C9. Whatever the question and the agents' responses, the requirement parser
  assigns the depth "deep" or "standard", never "basic" or "expert"; the plan built from
  the parsed requirement has five tasks when the depth is "deep" and three when it is
  "standard", so it never has two tasks and is never the task list of the "basic" branch.
\<close>

theorem parsed_requirement_depth_and_plan_size:
  "(research_depth (parse_requirements original response) = ''deep''
      \<and> tasks (parse_plan (parse_requirements original response) response') = deep_tasks
      \<and> length (tasks (parse_plan (parse_requirements original response) response')) = 5
    \<or> research_depth (parse_requirements original response) = ''standard''
      \<and> tasks (parse_plan (parse_requirements original response) response') = standard_tasks
      \<and> length (tasks (parse_plan (parse_requirements original response) response')) = 3)
   \<and> research_depth (parse_requirements original response) \<noteq> ''basic''
   \<and> research_depth (parse_requirements original response) \<noteq> ''expert''
   \<and> length (tasks (parse_plan (parse_requirements original response) response')) \<noteq> 2
   \<and> tasks (parse_plan (parse_requirements original response) response') \<noteq> basic_tasks"
  using parse_requirements_depth_cases [of original response]
  by (auto simp: parse_plan_def Let_def deep_tasks_def standard_tasks_def basic_tasks_def)

section \<open>Scores of extracted sources\<close>

lemma lower_append: "lower (a @ b) = lower a @ lower b"
  by (simp add: lower_def)

lemma contains_lower:
  assumes "contains w t" and "lower w = w"
  shows "contains w (lower t)"
proof -
  from assms(1) obtain ps ss where "t = ps @ w @ ss"
    by (auto simp: contains_iff)
  then have "lower t = lower ps @ w @ lower ss"
    by (simp add: lower_append assms(2))
  then show ?thesis
    by (auto simp: contains_iff)
qed

lemma assess_source_quality_bounds:
  "0 \<le> assess_source_quality u t \<and> assess_source_quality u t \<le> 1"
  by (simp add: assess_source_quality_def)






lemma new_citation_fields:
  "title (new_citation n t u) = t" "url (new_citation n t u) = u"
  "quality_score (new_citation n t u) = assess_source_quality u t"
  "source_type (new_citation n t u) = determine_source_type u"
  "reliability_score (new_citation n t u) = 0.8"
  "author (new_citation n t u) = None" "publication_date (new_citation n t u) = None"
  "cid (new_citation n t u) = n"
  by (simp_all add: new_citation_def)

lemma extract_loop_scored:
  "list_all scored srcs \<Longrightarrow> list_all scored (extract_loop lines js srcs)"
  by (induction lines js srcs rule: extract_loop.induct)
     (auto simp: scored_def new_citation_fields split: option.splits)

lemma extract_sources_scored: "list_all scored (extract_sources reply)"
  by (simp add: extract_sources_def Let_def extract_loop_scored)

lemma extracted_scored: "c \<in> set (extract_sources reply) \<Longrightarrow> scored c"
  using extract_sources_scored [of reply] by (simp add: list_all_iff)

text \<open>
  Claim C7. Every citation that \<^verbatim>\<open>_extract_sources\<close> returns has a quality score
  in the closed interval from 0 to 1, the score being the clamped result of the two
  adjustments of the base score 0.5, and a reliability score of exactly 0.8.
\<close>

theorem extracted_source_scores:
  assumes "c \<in> set (extract_sources reply)"
  shows "0 \<le> quality_score c \<and> quality_score c \<le> 1
         \<and> quality_score c
             = max 0 (min 1 (title_adjusted (lower (title c)) (url_adjusted (url c) 0.5)))
         \<and> reliability_score c = 0.8"
  using extracted_scored [OF assms] assess_source_quality_bounds [of "url c" "title c"]
  by (simp add: scored_def assess_source_quality_def)

text \<open>
  Witness for C7: the one source extracted from a line with a government URL.
\<close>

theorem extracted_source_scores_witness:
  "new_citation 1 ''Search Result'' ''http://b.gov/q''
     \<in> set (extract_sources ''see http://b.gov/q for more'')
   \<and> 0 \<le> quality_score (new_citation 1 ''Search Result'' ''http://b.gov/q'')
   \<and> quality_score (new_citation 1 ''Search Result'' ''http://b.gov/q'') \<le> 1
   \<and> quality_score (new_citation 1 ''Search Result'' ''http://b.gov/q'') = 0.75
   \<and> reliability_score (new_citation 1 ''Search Result'' ''http://b.gov/q'') = 0.8"
proof -
  have e: "extract_sources ''see http://b.gov/q for more''
             = [new_citation 1 ''Search Result'' ''http://b.gov/q'']"
    by code_simp
  have m: "new_citation 1 ''Search Result'' ''http://b.gov/q''
             \<in> set (extract_sources ''see http://b.gov/q for more'')"
    by (simp add: e)
  have q: "quality_score (new_citation 1 ''Search Result'' ''http://b.gov/q'') = 0.75"
    by (simp add: new_citation_def assess_source_quality_def url_adjusted_def
        title_adjusted_def lower_def lower_char_def)
  from extracted_source_scores [OF m] m q show ?thesis by simp
qed




section \<open>Categories of conflicts\<close>

lemma categorize_loop_eq:
  "categorize_loop cs d
     = map (\<lambda>(k, v). (k, v @ filter (\<lambda>c. conflict_category c = k) cs)) d"
proof (induction cs arbitrary: d)
  case Nil
  then show ?case by simp
next
  case (Cons c cs)
  show ?case
    by (simp add: Cons.IH dict_append_def case_prod_unfold)
qed

lemma conflict_category_cases:
  "conflict_category c = ''temporal'' \<or> conflict_category c = ''methodological''
   \<or> conflict_category c = ''perspectival'' \<or> conflict_category c = ''data_quality''"
  by (simp add: conflict_category_def Let_def)

lemma mset_four_buckets:
  "mset (filter (\<lambda>c. conflict_category c = ''temporal'') cs)
   + mset (filter (\<lambda>c. conflict_category c = ''methodological'') cs)
   + mset (filter (\<lambda>c. conflict_category c = ''perspectival'') cs)
   + mset (filter (\<lambda>c. conflict_category c = ''data_quality'') cs) = mset cs"
proof (induction cs)
  case Nil
  then show ?case by simp
next
  case (Cons c cs)
  from conflict_category_cases [of c] Cons.IH show ?case
    by (elim disjE) simp_all
qed

lemma concat_drop_empty:
  "concat (map snd (filter (\<lambda>(k, v). v \<noteq> []) d)) = concat (map snd d)"
  by (induction d) auto

text \<open>
  Claim C6. For every list of conflict lines, \<^verbatim>\<open>_categorize_conflicts\<close> returns the
  four buckets temporal, methodological, perspectival, data-quality, in this order and
  without the empty ones, the bucket of a key holding exactly the lines the chain sends to
  that key, in their order. The chain tries the four word groups in this priority order
  and sends a line that matches none to perspectival, so every line has exactly one key.
  The contents of the returned buckets, taken together as a multiset, are the input.
\<close>

theorem categorize_conflicts_partition:
  "categorize_conflicts conflicts
     = filter (\<lambda>(k, v). v \<noteq> [])
         (map (\<lambda>k. (k, filter (\<lambda>c. conflict_category c = k) conflicts))
            [''temporal'', ''methodological'', ''perspectival'', ''data_quality''])
   \<and> mset (concat (map snd (categorize_conflicts conflicts))) = mset conflicts
   \<and> (conflict_category c = ''temporal'') = any_in temporal_words (lower c)
   \<and> (conflict_category c = ''methodological'')
       = (\<not> any_in temporal_words (lower c) \<and> any_in methodological_words (lower c))
   \<and> (conflict_category c = ''data_quality'')
       = (\<not> any_in temporal_words (lower c) \<and> \<not> any_in methodological_words (lower c)
          \<and> \<not> any_in perspectival_words (lower c) \<and> any_in data_quality_words (lower c))
   \<and> (conflict_category c = ''perspectival'')
       = (\<not> any_in temporal_words (lower c) \<and> \<not> any_in methodological_words (lower c)
          \<and> (any_in perspectival_words (lower c) \<or> \<not> any_in data_quality_words (lower c)))"
proof -
  have shape: "categorize_conflicts conflicts
     = filter (\<lambda>(k, v). v \<noteq> [])
         (map (\<lambda>k. (k, filter (\<lambda>c. conflict_category c = k) conflicts))
            [''temporal'', ''methodological'', ''perspectival'', ''data_quality''])"
    by (simp add: categorize_conflicts_def categorize_loop_eq)
  have union: "mset (concat (map snd (categorize_conflicts conflicts))) = mset conflicts"
    unfolding shape concat_drop_empty
    using mset_four_buckets [of conflicts] by (simp add: ac_simps)
  have cat: "(conflict_category c = ''temporal'') = any_in temporal_words (lower c)"
    "(conflict_category c = ''methodological'')
       = (\<not> any_in temporal_words (lower c) \<and> any_in methodological_words (lower c))"
    "(conflict_category c = ''data_quality'')
       = (\<not> any_in temporal_words (lower c) \<and> \<not> any_in methodological_words (lower c)
          \<and> \<not> any_in perspectival_words (lower c) \<and> any_in data_quality_words (lower c))"
    "(conflict_category c = ''perspectival'')
       = (\<not> any_in temporal_words (lower c) \<and> \<not> any_in methodological_words (lower c)
          \<and> (any_in perspectival_words (lower c) \<or> \<not> any_in data_quality_words (lower c)))"
    by (auto simp: conflict_category_def Let_def)
  from shape union cat show ?thesis by blast
qed

section \<open>Runs of the retry loop\<close>

lemma retry_loop_always_transient:
  assumes "\<And>k. \<exists>e. func k = Inl e \<and> transient e"
    and "attempt < n"
  shows "retry_loop func (int n) base_delay attempt slept
           = \<lparr>calls = n,
              sleeps = slept @ map (\<lambda>a. base_delay * 2 ^ a) [attempt ..< n - 1],
              outcome = func (n - 1)\<rparr>"
  using assms(2)
proof (induction "n - attempt" arbitrary: attempt slept)
  case 0
  then show ?case by simp
next
  case (Suc d)
  from assms(1) obtain e where e: "func attempt = Inl e" "transient e" by blast
  show ?case
  proof (cases "Suc attempt < n")
    case True
    then have "retry_loop func (int n) base_delay attempt slept
                 = retry_loop func (int n) base_delay (Suc attempt)
                     (slept @ [base_delay * 2 ^ attempt])"
      using e by (subst retry_loop.simps) simp
    also have "\<dots> = \<lparr>calls = n,
              sleeps = (slept @ [base_delay * 2 ^ attempt])
                         @ map (\<lambda>a. base_delay * 2 ^ a) [Suc attempt ..< n - 1],
              outcome = func (n - 1)\<rparr>"
      using Suc.hyps(1) [of "Suc attempt"] Suc.hyps(2) True by simp
    also have "[attempt ..< n - 1] = attempt # [Suc attempt ..< n - 1]"
      using True by (simp add: upt_conv_Cons)
    then have "(slept @ [base_delay * 2 ^ attempt])
                         @ map (\<lambda>a. base_delay * 2 ^ a) [Suc attempt ..< n - 1]
               = slept @ map (\<lambda>a. base_delay * 2 ^ a) [attempt ..< n - 1]"
      by simp
    finally show ?thesis .
  next
    case False
    with Suc.prems have n: "n = Suc attempt" by simp
    show ?thesis
      using e by (subst retry_loop.simps) (simp add: n)
  qed
qed

lemma retry_always_transient:
  assumes "\<And>k. \<exists>e. func k = Inl e \<and> transient e"
    and "0 < n"
  shows "retry_with_backoff func (int n) base_delay
           = \<lparr>calls = n, sleeps = map (\<lambda>a. base_delay * 2 ^ a) [0 ..< n - 1],
              outcome = func (n - 1)\<rparr>"
  using retry_loop_always_transient [OF assms, where base_delay = base_delay and slept = "[]"]
  by (simp add: retry_with_backoff_def)

lemma retry_fatal:
  assumes "func 0 = Inl e" and "\<not> transient e" and "0 < max_retries"
  shows "retry_with_backoff func max_retries base_delay
           = \<lparr>calls = 1, sleeps = [], outcome = Inl e\<rparr>"
  using assms unfolding retry_with_backoff_def
  by (subst retry_loop.simps) simp


text \<open>
  Claim C1, at the input where the code departs from it. The operation raises a failure
  with a transient signature on every call and \<open>max_retries\<close> is 3: the run awaits
  the operation three times, sleeps 5 and 10 seconds in between, and raises the
  operation's own failure, which is not the failure "Failed after 3 attempts" of the
  statement after the loop. That statement is reached only when \<open>max_retries\<close> is
  not positive (lemma \<open>retry_always_transient\<close> gives the run for every positive
  \<open>max_retries\<close>). The other half of the claim holds: a failure without a transient
  signature is raised after one call (lemma \<open>retry_fatal\<close>).
\<close>

theorem retry_exhausted_reraises_original:
  "retry_with_backoff (\<lambda>k. Inl (Exn ''Error code: 500 - INTERNAL'') :: exn + string) 3 5
     = \<lparr>calls = 3, sleeps = [5, 10], outcome = Inl (Exn ''Error code: 500 - INTERNAL'')\<rparr>
   \<and> transient (Exn ''Error code: 500 - INTERNAL'')
   \<and> Exn ''Error code: 500 - INTERNAL'' \<noteq> Exn ''Failed after 3 attempts''"
proof -
  have t: "transient (Exn ''Error code: 500 - INTERNAL'')"
    by (simp add: transient_def)
  have "retry_with_backoff (\<lambda>k. Inl (Exn ''Error code: 500 - INTERNAL'') :: exn + string)
          (int 3) 5
     = \<lparr>calls = 3, sleeps = map (\<lambda>a. 5 * 2 ^ a) [0 ..< 3 - 1],
        outcome = Inl (Exn ''Error code: 500 - INTERNAL'')\<rparr>"
    by (rule retry_always_transient) (simp_all add: t)
  moreover have "map (\<lambda>a. (5::int) * 2 ^ a) [0 ..< 3 - 1] = [5, 10]"
    by (simp add: upt_rec)
  ultimately show ?thesis
    using t by simp
qed

section \<open>Spacing of rate-limited calls\<close>


lemma rate_limit_delay_acquire_all [simp]:
  "rate_limit_delay (acquire_all env s) = rate_limit_delay s"
  by (induction env s rule: acquire_all.induct) (simp_all add: rate_limit_def Let_def)

lemma length_completions [simp]: "length (completions env s) = length env"
  by (induction env s rule: completions.induct) simp_all



lemma completions_Nil_iff [simp]: "completions env s = [] \<longleftrightarrow> env = []"
  by (induction env s rule: completions.induct) simp_all





section \<open>The trace only grows\<close>

lemma logged_log_call: "logged (log_call clk c orc) = logged orc @ [c]"
  by (cases c) (simp add: logged_def log_call_def log_execution_def Let_def request_of_def)

lemma logged_log_calls: "logged (log_calls clk cs orc) = logged orc @ cs"
  by (induction cs arbitrary: orc) (simp_all add: logged_log_call)

lemma mset_interleave: "mset (interleave schedule logs) = mset (concat logs)"
proof (induction schedule logs rule: interleave.induct)
  case (1 logs)
  then show ?case by simp
next
  case (2 k ks logs)
  show ?case
  proof (cases "k < length logs")
    case False
    with 2 show ?thesis by simp
  next
    case True
    show ?thesis
    proof (cases "logs ! k")
      case Nil
      with 2 True show ?thesis by simp
    next
      case (Cons x xs)
      from True have split: "logs = take k logs @ (x # xs) # drop (Suc k) logs"
        using Cons by (metis id_take_nth_drop)
      from True have upd: "logs[k := xs] = take k logs @ xs # drop (Suc k) logs"
        by (simp add: upd_conv_take_nth_drop)
      have "mset (interleave (k # ks) logs) = add_mset x (mset (concat (logs[k := xs])))"
        using 2(2) True Cons by simp
      also have "\<dots> = mset (concat (take k logs @ (x # xs) # drop (Suc k) logs))"
        by (simp add: upd)
      finally show ?thesis
        using split by simp
    qed
  qed
qed

lemma set_interleave: "set (interleave schedule logs) = set (concat logs)"
  using mset_interleave [of schedule logs] by (metis set_mset_mset)

lemma collect_search_results_found:
  "fst (collect_search_results clk xs acc orc) = acc @ successes (map snd xs)"
proof (induction xs arbitrary: acc orc)
  case Nil
  then show ?case by simp
next
  case (Cons x xs)
  obtain i result where x: "x = (i, result)" by (cases x)
  show ?case
    by (cases result) (simp_all add: x Cons.IH)
qed

lemma collect_search_results_prefix:
  "prefix (logged orc) (logged (snd (collect_search_results clk xs acc orc)))"
proof (induction xs arbitrary: acc orc)
  case Nil
  then show ?case by simp
next
  case (Cons x xs)
  obtain i result where x: "x = (i, result)" by (cases x)
  have step: "\<And>c. prefix (logged orc) (logged (log_call clk c orc))"
    by (simp add: logged_log_call)
  show ?case
    by (cases result) (auto simp: x intro: prefix_order.trans [OF step Cons.IH])
qed

lemma collect_search_results_failed:
  assumes "(i, Inl e) \<in> set xs"
  shows "(''SearchAgent'', ''search_task_'' @ show_nat (i + 1) @ ''_failed'', False, str e)
           \<in> set (logged (snd (collect_search_results clk xs acc orc)))"
  using assms
proof (induction xs arbitrary: acc orc)
  case Nil
  then show ?case by simp
next
  case (Cons x xs)
  obtain j result where x: "x = (j, result)" by (cases x)
  show ?case
  proof (cases "x = (i, Inl e)")
    case True
    let ?c = "(''SearchAgent'', ''search_task_'' @ show_nat (i + 1) @ ''_failed'', False, str e)"
    have "?c \<in> set (logged (log_call clk ?c orc))"
      by (simp add: logged_log_call)
    with collect_search_results_prefix [of "log_call clk ?c orc" clk xs acc]
    show ?thesis
      using True by (auto dest: set_mono_prefix)
  next
    case False
    with Cons.prems have "(i, Inl e) \<in> set xs" by simp
    from Cons.IH [OF this] show ?thesis
      by (cases result) (simp_all add: x)
  qed
qed

section \<open>Citations in the store\<close>

lemma enhance_fields [simp]:
  "list_objects (enhance st r) = list_objects st"
  "length (citation_objects (enhance st r)) = length (citation_objects st)"
  by (simp_all add: enhance_def)

lemma foldl_enhance_fields [simp]:
  "list_objects (foldl enhance st rs) = list_objects st"
  "length (citation_objects (foldl enhance st rs)) = length (citation_objects st)"
  by (induction rs arbitrary: st) simp_all

lemma enhance_nth:
  "citation_objects (enhance st r) ! q
     = (if q = r \<and> r < length (citation_objects st)
        then (citation_objects st ! q)\<lparr>author := Some ''Unknown'',
                                       publication_date := Some ''2024''\<rparr>
        else citation_objects st ! q)"
  by (cases "r < length (citation_objects st)")
     (auto simp: enhance_def nth_list_update list_update_beyond)

lemma foldl_enhance_nth:
  "citation_objects (foldl enhance st rs) ! q
     = (if q \<in> set rs \<and> q < length (citation_objects st)
        then (citation_objects st ! q)\<lparr>author := Some ''Unknown'',
                                       publication_date := Some ''2024''\<rparr>
        else citation_objects st ! q)"
proof (induction rs arbitrary: st)
  case Nil
  then show ?case by simp
next
  case (Cons r rs)
  show ?case
    by (auto simp: Cons.IH enhance_nth)
qed

lemma create_citations_Inr:
  assumes "create_citations run l st = Inr (l', st')"
  shows "l' = l" and "st' = foldl enhance st (list_objects st ! l)"
  using assms by (auto simp: create_citations_def split: sum.splits)

text \<open>A run of the retry loop returns what one of the calls returned.\<close>

lemma retry_loop_Inr:
  assumes "outcome (retry_loop func max_retries base_delay attempt slept) = Inr v"
  shows "\<exists>a. func a = Inr v"
  using assms
proof (induction func max_retries base_delay attempt slept rule: retry_loop.induct)
  case (1 func max_retries base_delay attempt slept)
  show ?case
  proof (cases "int attempt < max_retries")
    case False
    with "1.prems" show ?thesis
      by (subst (asm) retry_loop.simps) simp
  next
    case True
    show ?thesis
    proof (cases "func attempt")
      case (Inr w)
      with "1.prems" True have "w = v"
        by (subst (asm) retry_loop.simps) simp
      with Inr show ?thesis by blast
    next
      case (Inl e)
      show ?thesis
      proof (cases "transient e \<and> int attempt < max_retries - 1")
        case True
        with "1.prems" Inl \<open>int attempt < max_retries\<close>
        have "outcome (retry_loop func max_retries base_delay (Suc attempt)
                 (slept @ [base_delay * 2 ^ attempt])) = Inr v"
          by (subst (asm) retry_loop.simps) simp
        with "1.IH" [OF \<open>int attempt < max_retries\<close> Inl] True show ?thesis
          by blast
      next
        case False
        with "1.prems" Inl \<open>int attempt < max_retries\<close> show ?thesis
          by (subst (asm) retry_loop.simps) (auto split: if_splits)
      qed
    qed
  qed
qed

lemma retry_with_backoff_Inr:
  "outcome (retry_with_backoff func max_retries base_delay) = Inr v \<Longrightarrow> \<exists>a. func a = Inr v"
  unfolding retry_with_backoff_def by (rule retry_loop_Inr)

text \<open>When every call raises, so does the run.\<close>

lemma retry_loop_all_fail:
  assumes "\<And>a. \<exists>e. func a = Inl e"
  shows "\<exists>e. outcome (retry_loop func max_retries base_delay attempt slept) = Inl e"
  using assms
proof (induction func max_retries base_delay attempt slept rule: retry_loop.induct)
  case (1 func max_retries base_delay attempt slept)
  from "1.prems" obtain e where e: "func attempt = Inl e" by blast
  show ?case
  proof (cases "int attempt < max_retries \<and> transient e \<and> int attempt < max_retries - 1")
    case True
    with "1.IH" [OF _ e] "1.prems"
    have "\<exists>e'. outcome (retry_loop func max_retries base_delay (Suc attempt)
                 (slept @ [base_delay * 2 ^ attempt])) = Inl e'"
      by blast
    with True e show ?thesis
      by (subst retry_loop.simps) simp
  next
    case False
    with e show ?thesis
      by (subst retry_loop.simps) auto
  qed
qed

lemma retry_with_backoff_all_fail:
  "(\<And>a. \<exists>e. func a = Inl e)
     \<Longrightarrow> \<exists>e. outcome (retry_with_backoff func max_retries base_delay) = Inl e"
  unfolding retry_with_backoff_def by (rule retry_loop_all_fail)

section \<open>The search batch\<close>

lemma search_Inr:
  assumes "search run query ctx st = Inr (r, st1)"
  shows "\<exists>out. run query = Inr out
           \<and> content r = out
           \<and> sources r = [length (citation_objects st)
                           ..< length (citation_objects st) + length (extract_sources out)]
           \<and> st1 = st\<lparr>citation_objects := citation_objects st @ extract_sources out\<rparr>"
  using assms by (auto simp: search_def Let_def split: sum.splits)

lemma search_task_wrapper_Inr:
  assumes "snd (search_task_wrapper ev requirements tsk i st) = Inr (r, st1)"
  shows "\<exists>a out. search_run ev i a (clarified_question requirements) = Inr out
           \<and> content r = out
           \<and> sources r = [length (citation_objects st)
                           ..< length (citation_objects st) + length (extract_sources out)]
           \<and> st1 = st\<lparr>citation_objects := citation_objects st @ extract_sources out\<rparr>"
proof -
  from assms have "outcome (retry_with_backoff
         (\<lambda>attempt. search (search_run ev i attempt) (clarified_question requirements)
                       (''Task: '' @ description tsk) st) 3 5) = Inr (r, st1)"
    by (simp add: search_task_wrapper_def Let_def)
  from retry_with_backoff_Inr [OF this] obtain a
    where "search (search_run ev i a) (clarified_question requirements)
             (''Task: '' @ description tsk) st = Inr (r, st1)"
    by blast
  from search_Inr [OF this] show ?thesis by blast
qed

lemma search_batch_store:
  assumes "search_batch ev requirements its st = (outs, st')"
  shows "list_objects st' = list_objects st
         \<and> length (citation_objects st) \<le> length (citation_objects st')
         \<and> length outs = length its
         \<and> list_all (sources_in st') (successes (map snd outs))"
  using assms
proof (induction its arbitrary: st outs st')
  case Nil
  then show ?case by simp
next
  case (Cons it its)
  obtain i tsk where it: "it = (i, tsk)" by (cases it)
  obtain logs result where w: "search_task_wrapper ev requirements tsk i st = (logs, result)"
    by (cases "search_task_wrapper ev requirements tsk i st")
  show ?case
  proof (cases result)
    case (Inl e)
    obtain outs0 st0 where b: "search_batch ev requirements its st = (outs0, st0)"
      by (cases "search_batch ev requirements its st")
    from Cons.prems have "outs = (logs, Inl e) # outs0" "st' = st0"
      by (simp_all add: it w Inl b)
    with Cons.IH [OF b] show ?thesis by simp
  next
    case (Inr p)
    obtain r st1 where p: "p = (r, st1)" by (cases p)
    obtain outs0 st0 where b: "search_batch ev requirements its st1 = (outs0, st0)"
      by (cases "search_batch ev requirements its st1")
    from Cons.prems have o: "outs = (logs, Inr r) # outs0" "st' = st0"
      by (simp_all add: it w Inr p b)
    from w Inr p have "snd (search_task_wrapper ev requirements tsk i st) = Inr (r, st1)"
      by simp
    from search_task_wrapper_Inr [OF this] obtain out
      where r: "sources r = [length (citation_objects st)
                           ..< length (citation_objects st) + length (extract_sources out)]"
        and st1: "st1 = st\<lparr>citation_objects := citation_objects st @ extract_sources out\<rparr>"
      by blast
    from Cons.IH [OF b] have ih: "list_objects st0 = list_objects st1"
      "length (citation_objects st1) \<le> length (citation_objects st0)"
      "length outs0 = length its"
      "list_all (sources_in st0) (successes (map snd outs0))"
      by simp_all
    have "sources_in st0 r"
      using ih(2) by (auto simp: sources_in_def r st1 list_all_iff)
    with ih show ?thesis
      by (simp add: o st1)
  qed
qed

section \<open>The phases of the execution\<close>

lemma enumerate_from_nth:
  "k < length xs \<Longrightarrow> enumerate_from start xs ! k = (start + k, xs ! k)"
  by (simp add: enumerate_from_def)

lemma enumerate_from_Nil [simp]: "enumerate_from start [] = []"
  by (simp add: enumerate_from_def)

lemma length_enumerate_from [simp]: "length (enumerate_from start xs) = length xs"
  by (simp add: enumerate_from_def)

lemma map_snd_enumerate_from [simp]: "map snd (enumerate_from start xs) = xs"
  by (simp add: enumerate_from_def)

lemma enumerate_from_member:
  "k < length xs \<Longrightarrow> (start + k, xs ! k) \<in> set (enumerate_from start xs)"
  using enumerate_from_nth [of k xs start] by (metis length_enumerate_from nth_mem)

lemma search_phase_result:
  assumes "search_phase ev requirements search_tasks orc st = (found, orc', st')"
  shows "found = successes (map snd (fst (search_batch ev requirements
                                            (enumerate_from (Suc 0) search_tasks) st)))"
    and "st' = snd (search_batch ev requirements (enumerate_from (Suc 0) search_tasks) st)"
    and "prefix (logged orc) (logged orc')"
proof -
  obtain outs st0
    where b: "search_batch ev requirements (enumerate_from (Suc 0) search_tasks) st = (outs, st0)"
    by (cases "search_batch ev requirements (enumerate_from (Suc 0) search_tasks) st")
  let ?orc1 = "log_calls (time_at ev) (interleave (search_schedule ev) (map fst outs)) orc"
  let ?c = "collect_search_results (time_at ev) (enumerate_from 0 (map snd outs)) [] ?orc1"
  have e: "search_tasks = [] \<Longrightarrow> outs = [] \<and> st0 = st"
    using b by simp
  have r: "found = fst ?c \<and> orc' = snd ?c \<and> st' = st0" if "search_tasks \<noteq> []"
    using assms that by (simp add: search_phase_def b split: prod.splits)
  have r0: "found = [] \<and> orc' = orc \<and> st' = st" if "search_tasks = []"
    using assms that by (simp add: search_phase_def)
  show "found = successes (map snd (fst (search_batch ev requirements
                                            (enumerate_from (Suc 0) search_tasks) st)))"
    using r r0 e by (cases "search_tasks = []") (simp_all add: b collect_search_results_found)
  show "st' = snd (search_batch ev requirements (enumerate_from (Suc 0) search_tasks) st)"
    using r r0 e by (cases "search_tasks = []") (simp_all add: b)
  have "prefix (logged orc) (logged ?orc1)"
    by (simp add: logged_log_calls)
  also have "prefix (logged ?orc1) (logged (snd ?c))"
    by (rule collect_search_results_prefix)
  finally show "prefix (logged orc) (logged orc')"
    using r r0 by (cases "search_tasks = []") simp_all
qed

lemma search_phase_failed:
  assumes "search_phase ev requirements search_tasks orc st = (found, orc', st')"
    and "k < length search_tasks"
    and "map snd (fst (search_batch ev requirements (enumerate_from (Suc 0) search_tasks) st)) ! k
           = Inl e"
  shows "(''SearchAgent'', ''search_task_'' @ show_nat (k + 1) @ ''_failed'', False, str e)
           \<in> set (logged orc')"
proof -
  obtain outs st0
    where b: "search_batch ev requirements (enumerate_from (Suc 0) search_tasks) st = (outs, st0)"
    by (cases "search_batch ev requirements (enumerate_from (Suc 0) search_tasks) st")
  let ?orc1 = "log_calls (time_at ev) (interleave (search_schedule ev) (map fst outs)) orc"
  let ?c = "collect_search_results (time_at ev) (enumerate_from 0 (map snd outs)) [] ?orc1"
  from assms(2) have ne: "search_tasks \<noteq> []" by auto
  from search_batch_store [OF b] assms(2) have len: "k < length (map snd outs)"
    by simp
  from assms(1) ne have o: "orc' = snd ?c"
    by (simp add: search_phase_def b split: prod.splits)
  from enumerate_from_member [OF len, of 0] assms(3)
  have "(k, Inl e) \<in> set (enumerate_from 0 (map snd outs))"
    by (simp add: b)
  from collect_search_results_failed [OF this] show ?thesis
    by (simp add: o)
qed

lemma search_phase_store:
  assumes "search_phase ev requirements search_tasks orc st = (found, orc', st')"
  shows "list_objects st' = list_objects st" and "list_all (sources_in st') found"
    and "length found \<le> length search_tasks"
proof -
  obtain outs st0
    where b: "search_batch ev requirements (enumerate_from (Suc 0) search_tasks) st = (outs, st0)"
    by (cases "search_batch ev requirements (enumerate_from (Suc 0) search_tasks) st")
  from search_phase_result [OF assms] have f: "found = successes (map snd outs)" "st' = st0"
    by (simp_all add: b)
  have "length (successes xs) \<le> length xs" for xs :: "(exn + ResearchResult) list"
    by (induction xs rule: successes.induct) simp_all
  from this [of "map snd outs"] search_batch_store [OF b]
  show "list_objects st' = list_objects st" and "list_all (sources_in st') found"
    and "length found \<le> length search_tasks"
    by (simp_all add: f)
qed

section \<open>The reflection batch\<close>

lemma collect_reflection_results_found:
  "fst (collect_reflection_results clk xs acc orc) = acc @ successes (map snd xs)"
proof (induction xs arbitrary: acc orc)
  case Nil
  then show ?case by simp
next
  case (Cons x xs)
  obtain i result where x: "x = (i, result)" by (cases x)
  show ?case
    by (cases result) (simp_all add: x Cons.IH)
qed

lemma collect_reflection_results_prefix:
  "prefix (logged orc) (logged (snd (collect_reflection_results clk xs acc orc)))"
proof (induction xs arbitrary: acc orc)
  case Nil
  then show ?case by simp
next
  case (Cons x xs)
  obtain i result where x: "x = (i, result)" by (cases x)
  have step: "\<And>c. prefix (logged orc) (logged (log_call clk c orc))"
    by (simp add: logged_log_call)
  show ?case
    by (cases result) (auto simp: x intro: prefix_order.trans [OF step Cons.IH])
qed

lemma length_reflection_coroutines [simp]:
  "length (reflection_coroutines ev found reflection_tasks) = length reflection_tasks"
  by (simp add: reflection_coroutines_def)

lemma reflection_coroutines_nth:
  assumes "k < length reflection_tasks"
  shows "reflection_coroutines ev found reflection_tasks ! k
           = reflection_task_wrapper ev (reflection_tasks ! k)
               (content (found ! (Suc k mod length found))) (Suc k)"
  using assms by (simp add: reflection_coroutines_def enumerate_from_nth)

lemma reflection_phase_result:
  assumes "reflection_phase ev found reflection_tasks orc = (reflected, orc')"
  shows "reflected = (if found = [] then []
                      else successes (map snd (reflection_coroutines ev found reflection_tasks)))"
    and "prefix (logged orc) (logged orc')"
proof -
  let ?outs = "reflection_coroutines ev found reflection_tasks"
  let ?orc1 = "log_calls (time_at ev) (interleave (reflection_schedule ev) (map fst ?outs)) orc"
  let ?c = "collect_reflection_results (time_at ev) (enumerate_from 0 (map snd ?outs)) [] ?orc1"
  have r: "reflected = fst ?c \<and> orc' = snd ?c" if "reflection_tasks \<noteq> [] \<and> found \<noteq> []"
    using assms that by (simp add: reflection_phase_def Let_def split: prod.splits)
  have r0: "reflected = [] \<and> orc' = orc" if "\<not> (reflection_tasks \<noteq> [] \<and> found \<noteq> [])"
    using assms that by (auto simp: reflection_phase_def)
  have e: "reflection_tasks = [] \<Longrightarrow> ?outs = []"
    by (simp add: reflection_coroutines_def)
  show "reflected = (if found = [] then []
                      else successes (map snd (reflection_coroutines ev found reflection_tasks)))"
  proof (cases "reflection_tasks \<noteq> [] \<and> found \<noteq> []")
    case True
    with r show ?thesis by (simp add: collect_reflection_results_found)
  next
    case False
    with r0 e show ?thesis by auto
  qed
  have "prefix (logged orc) (logged ?orc1)"
    by (simp add: logged_log_calls)
  also have "prefix (logged ?orc1) (logged (snd ?c))"
    by (rule collect_reflection_results_prefix)
  finally show "prefix (logged orc) (logged orc')"
    using r r0 by (cases "reflection_tasks \<noteq> [] \<and> found \<noteq> []") simp_all
qed

lemma in_concat_nth:
  "k < length xss \<Longrightarrow> x \<in> set (xss ! k) \<Longrightarrow> x \<in> set (concat xss)"
  unfolding set_concat using nth_mem by blast

lemma reflection_phase_handoff:
  assumes "reflection_phase ev found reflection_tasks orc = (reflected, orc')"
    and "found \<noteq> []" and "k < length reflection_tasks"
  shows "(''LeadResearchAgent'', ''handoff_to_reflection_'' @ show_nat (Suc k), True,
          ''Handing off to Reflection Agent for: '' @ description (reflection_tasks ! k))
           \<in> set (logged orc')"
proof -
  let ?outs = "reflection_coroutines ev found reflection_tasks"
  let ?orc1 = "log_calls (time_at ev) (interleave (reflection_schedule ev) (map fst ?outs)) orc"
  let ?c = "collect_reflection_results (time_at ev) (enumerate_from 0 (map snd ?outs)) [] ?orc1"
  define h :: log_request
    where "h = (''LeadResearchAgent'', ''handoff_to_reflection_'' @ show_nat (Suc k), True,
          ''Handing off to Reflection Agent for: '' @ description (reflection_tasks ! k))"
  from assms(3) have "reflection_tasks \<noteq> []" by auto
  with assms(1,2) have o: "orc' = snd ?c"
    by (simp add: reflection_phase_def Let_def split: prod.splits)
  have "h \<in> set (fst (?outs ! k))"
    by (simp add: h_def reflection_coroutines_nth [OF assms(3)] reflection_task_wrapper_def
        Let_def)
  then have "h \<in> set (map fst ?outs ! k)"
    using assms(3) by simp
  then have "h \<in> set (concat (map fst ?outs))"
    using assms(3) by (intro in_concat_nth [of k]) simp_all
  then have "h \<in> set (logged ?orc1)"
    by (simp add: logged_log_calls set_interleave)
  with collect_reflection_results_prefix [of ?orc1 "time_at ev" "enumerate_from 0 (map snd ?outs)" "[]"]
  have "h \<in> set (logged orc')"
    unfolding o by (blast dest: set_mono_prefix)
  then show ?thesis
    by (simp only: h_def)
qed

section \<open>The citation tasks\<close>

lemma enumerate_from_eq_Nil [simp]: "enumerate_from start xs = [] \<longleftrightarrow> xs = []"
  by (auto simp: enumerate_from_def)

lemma enhanced_idem [simp]: "enhanced (enhanced c) = enhanced c"
  by (simp add: enhanced_def)

lemma foldl_enhance_enhanced:
  "citation_objects (foldl enhance st rs) ! q
     = (if q \<in> set rs \<and> q < length (citation_objects st)
        then enhanced (citation_objects st ! q)
        else citation_objects st ! q)"
  by (simp add: foldl_enhance_nth enhanced_def)

lemma citation_loop_result:
  assumes "citation_loop ev all_sources its cits orc st = (Inr cits', orc', st')"
  shows "cits' = cits @ concat (replicate (length its) (list_objects st ! all_sources))
         \<and> list_objects st' = list_objects st
         \<and> length (citation_objects st') = length (citation_objects st)
         \<and> prefix (logged orc) (logged orc')
         \<and> (\<forall>q. citation_objects st' ! q
                = (if its \<noteq> [] \<and> q \<in> set (list_objects st ! all_sources)
                      \<and> q < length (citation_objects st)
                   then enhanced (citation_objects st ! q)
                   else citation_objects st ! q))"
  using assms
proof (induction its arbitrary: cits orc st)
  case Nil
  then show ?case by simp
next
  case (Cons it its)
  obtain i tsk where it: "it = (i, tsk)" by (cases it)
  let ?orc1 = "log_call (time_at ev)
                   (''LeadResearchAgent'', ''handoff_to_citations_'' @ show_nat i, True,
                    ''Handing off to Citations Agent for: '' @ description tsk) orc"
  let ?run = "outcome (retry_with_backoff
                   (\<lambda>attempt. create_citations (citations_run ev i attempt) all_sources st)
                   3 5)"
  show ?case
  proof (cases ?run)
    case (Inl e)
    with Cons.prems show ?thesis
      by (simp add: it Let_def)
  next
    case (Inr p)
    obtain created st1 where p: "p = (created, st1)" by (cases p)
    from retry_with_backoff_Inr [OF Inr [unfolded p]] obtain a
      where "create_citations (citations_run ev i a) all_sources st = Inr (created, st1)"
      by blast
    from create_citations_Inr [OF this]
    have c: "created = all_sources"
      and st1: "st1 = foldl enhance st (list_objects st ! all_sources)"
      by simp_all
    have l1: "list_objects st1 = list_objects st"
      and n1: "length (citation_objects st1) = length (citation_objects st)"
      by (simp_all add: st1)
    let ?orc2 = "log_call (time_at ev)
                  (''CitationsAgent'', ''handoff_back_to_lead_'' @ show_nat i, True,
                   ''Created '' @ show_nat (length (list_objects st1 ! created))
                     @ '' citations'') ?orc1"
    from Cons.prems
    have run: "citation_loop ev all_sources its (cits @ list_objects st1 ! created) ?orc2 st1
                 = (Inr cits', orc', st')"
      by (simp add: it Let_def Inr p)
    from Cons.IH [OF run]
    have ih: "cits' = (cits @ list_objects st1 ! created)
                        @ concat (replicate (length its) (list_objects st1 ! all_sources))"
      "list_objects st' = list_objects st1"
      "length (citation_objects st') = length (citation_objects st1)"
      "prefix (logged ?orc2) (logged orc')"
      "\<And>q. citation_objects st' ! q
                = (if its \<noteq> [] \<and> q \<in> set (list_objects st1 ! all_sources)
                      \<and> q < length (citation_objects st1)
                   then enhanced (citation_objects st1 ! q)
                   else citation_objects st1 ! q)"
      by blast+
    have "prefix (logged orc) (logged ?orc2)"
      by (simp add: logged_log_call)
    from this ih(4) have pre: "prefix (logged orc) (logged orc')"
      by (rule prefix_order.trans)
    have pt: "citation_objects st' ! q
                = (if q \<in> set (list_objects st ! all_sources)
                      \<and> q < length (citation_objects st)
                   then enhanced (citation_objects st ! q)
                   else citation_objects st ! q)" for q
      unfolding ih(5) l1 n1 by (simp add: st1 foldl_enhance_enhanced)
    from ih(1,2,3) pre pt show ?thesis
      by (simp add: c l1 n1)
  qed
qed

lemma citation_phase_result:
  assumes "citation_phase ev found citation_tasks orc st = (Inr cits, orc', st')"
  shows "cits = concat (replicate (length citation_tasks) (concat (map sources found)))
         \<and> length (citation_objects st') = length (citation_objects st)
         \<and> prefix (logged orc) (logged orc')
         \<and> (\<forall>q. citation_objects st' ! q
                = (if citation_tasks \<noteq> [] \<and> q \<in> set (concat (map sources found))
                      \<and> q < length (citation_objects st)
                   then enhanced (citation_objects st ! q)
                   else citation_objects st ! q))"
proof (cases "citation_tasks = []")
  case True
  with assms show ?thesis
    by (simp add: citation_phase_def)
next
  case False
  let ?all = "concat (map sources found)"
  let ?st1 = "st\<lparr>list_objects := list_objects st @ [?all]\<rparr>"
  show ?thesis
  proof (cases "?all = []")
    case True
    from assms False
    have "cits = [] \<and> orc' = orc \<and> citation_objects st' = citation_objects st"
      unfolding citation_phase_def Let_def True by auto
    then show ?thesis
      unfolding True by simp
  next
    case ne: False
    with assms False
    have "citation_loop ev (length (list_objects st)) (enumerate_from (Suc 0) citation_tasks)
            [] orc ?st1 = (Inr cits, orc', st')"
      by (simp add: citation_phase_def Let_def del: concat_eq_Nil_conv)
    from citation_loop_result [OF this] False show ?thesis
      by simp
  qed
qed

section \<open>Runs of the plan\<close>

lemma execute_research_plan_Inr:
  assumes "execute_research_plan ev plan requirements orc st = (Inr res, orc', st')"
  obtains orc1 st1 orc2 where
    "search_phase ev requirements (filter (\<lambda>t. agent t = ''Search'') (tasks plan)) orc st
       = (search_results res, orc1, st1)"
    "reflection_phase ev (search_results res)
       (filter (\<lambda>t. agent t = ''Reflection'') (tasks plan)) orc1
       = (reflection_results res, orc2)"
    "citation_phase ev (search_results res)
       (filter (\<lambda>t. agent t = ''Citations'') (tasks plan)) orc2 st1
       = (Inr (citations res), orc', st')"
  using assms
  by (auto simp: execute_research_plan_def Let_def split: prod.splits sum.splits)

lemma in_concat_replicate:
  "q \<in> set (concat (replicate n xs)) \<Longrightarrow> 0 < n \<and> q \<in> set xs"
  by (induction n) auto

lemma sources_in_concat:
  "list_all (sources_in st) found \<Longrightarrow> q \<in> set (concat (map sources found))
     \<Longrightarrow> q < length (citation_objects st)"
  by (auto simp: list_all_iff sources_in_def)

text \<open>
  Claim C10. When its call of the agent returns, \<^verbatim>\<open>create_citations\<close> returns the
  address of the list object it was given; no list object changes and no object is added;
  every citation of the list has its author set to "Unknown" and its publication date to
  "2024" in place, every other object is as before, and no call changes the id, title,
  URL, source type, reliability score or quality score of any object. In a run of
  \<^verbatim>\<open>_execute_research_plan\<close> that returns, the flat list
  \<^verbatim>\<open>results["citations"]\<close> is the list of the addresses of the sources of all search
  results, repeated once per citation task, and every address in it is that of an object
  whose author is "Unknown" and whose publication date is "2024".
\<close>

theorem citations_enhanced_in_place:
  "(create_citations run l st = Inr (l', st')
      \<longrightarrow> l' = l
        \<and> list_objects st' = list_objects st
        \<and> length (citation_objects st') = length (citation_objects st)
        \<and> (\<forall>q. citation_objects st' ! q
                 = (if q \<in> set (list_objects st ! l) \<and> q < length (citation_objects st)
                    then (citation_objects st ! q)\<lparr>author := Some ''Unknown'',
                                                   publication_date := Some ''2024''\<rparr>
                    else citation_objects st ! q)
               \<and> cid (citation_objects st' ! q) = cid (citation_objects st ! q)
               \<and> title (citation_objects st' ! q) = title (citation_objects st ! q)
               \<and> url (citation_objects st' ! q) = url (citation_objects st ! q)
               \<and> source_type (citation_objects st' ! q)
                   = source_type (citation_objects st ! q)
               \<and> reliability_score (citation_objects st' ! q)
                   = reliability_score (citation_objects st ! q)
               \<and> quality_score (citation_objects st' ! q)
                   = quality_score (citation_objects st ! q)))
   \<and> (execute_research_plan ev plan requirements orc st0 = (Inr res, orc1, st1)
      \<longrightarrow> citations res
            = concat (replicate (length (filter (\<lambda>t. agent t = ''Citations'') (tasks plan)))
                        (concat (map sources (search_results res))))
        \<and> (\<forall>q \<in> set (citations res).
              q < length (citation_objects st1)
              \<and> author (citation_objects st1 ! q) = Some ''Unknown''
              \<and> publication_date (citation_objects st1 ! q) = Some ''2024''))"
proof (intro conjI impI)
  assume c: "create_citations run l st = Inr (l', st')"
  from create_citations_Inr [OF c]
  have l: "l' = l" and s: "st' = foldl enhance st (list_objects st ! l)"
    by simp_all
  show "l' = l" by (rule l)
  show "list_objects st' = list_objects st"
    and "length (citation_objects st') = length (citation_objects st)"
    by (simp_all add: s)
  show "\<forall>q. citation_objects st' ! q
                 = (if q \<in> set (list_objects st ! l) \<and> q < length (citation_objects st)
                    then (citation_objects st ! q)\<lparr>author := Some ''Unknown'',
                                                   publication_date := Some ''2024''\<rparr>
                    else citation_objects st ! q)
               \<and> cid (citation_objects st' ! q) = cid (citation_objects st ! q)
               \<and> title (citation_objects st' ! q) = title (citation_objects st ! q)
               \<and> url (citation_objects st' ! q) = url (citation_objects st ! q)
               \<and> source_type (citation_objects st' ! q)
                   = source_type (citation_objects st ! q)
               \<and> reliability_score (citation_objects st' ! q)
                   = reliability_score (citation_objects st ! q)
               \<and> quality_score (citation_objects st' ! q)
                   = quality_score (citation_objects st ! q)"
    by (simp add: s foldl_enhance_nth)
next
  assume x: "execute_research_plan ev plan requirements orc st0 = (Inr res, orc1, st1)"
  let ?cts = "filter (\<lambda>t. agent t = ''Citations'') (tasks plan)"
  let ?all = "concat (map sources (search_results res))"
  from execute_research_plan_Inr [OF x] obtain orc2 st2 orc3 where
    s: "search_phase ev requirements (filter (\<lambda>t. agent t = ''Search'') (tasks plan)) orc st0
       = (search_results res, orc2, st2)"
    and c: "citation_phase ev (search_results res) ?cts orc3 st2
       = (Inr (citations res), orc1, st1)"
    by blast
  from citation_phase_result [OF c]
  have cits: "citations res = concat (replicate (length ?cts) ?all)"
    and len: "length (citation_objects st1) = length (citation_objects st2)"
    and pt: "\<And>q. citation_objects st1 ! q
                = (if ?cts \<noteq> [] \<and> q \<in> set ?all \<and> q < length (citation_objects st2)
                   then enhanced (citation_objects st2 ! q)
                   else citation_objects st2 ! q)"
    by blast+
  show "citations res = concat (replicate (length ?cts) ?all)"
    by (rule cits)
  show "\<forall>q \<in> set (citations res).
              q < length (citation_objects st1)
              \<and> author (citation_objects st1 ! q) = Some ''Unknown''
              \<and> publication_date (citation_objects st1 ! q) = Some ''2024''"
  proof
    fix q
    assume "q \<in> set (citations res)"
    from in_concat_replicate [OF this [unfolded cits]]
    have ne: "?cts \<noteq> []" and q: "q \<in> set ?all"
      by auto
    from sources_in_concat [OF search_phase_store(2) [OF s] q]
    have v: "q < length (citation_objects st2)" .
    from pt [of q] ne q v
    have "citation_objects st1 ! q = enhanced (citation_objects st2 ! q)"
      by simp
    with v len show "q < length (citation_objects st1)
              \<and> author (citation_objects st1 ! q) = Some ''Unknown''
              \<and> publication_date (citation_objects st1 ! q) = Some ''2024''"
      by (simp add: enhanced_def)
  qed
qed


text \<open>
  Witness for C10: the call on a store of two citations and a list that holds the second,
  and the run of a plan of one search task and two citation tasks, the search finding one
  source.
\<close>

theorem citations_enhanced_in_place_witness:
  "create_citations (\<lambda>ts. Inr []) 0 store_ab
     = Inr (0, \<lparr>citation_objects = [citation_a, enhanced citation_b], list_objects = [[1]]\<rparr>)
   \<and> citation_objects
        \<lparr>citation_objects = [citation_a, enhanced citation_b], list_objects = [[1]]\<rparr> ! 1
       = (citation_objects store_ab ! 1)\<lparr>author := Some ''Unknown'',
                                          publication_date := Some ''2024''\<rparr>
   \<and> citation_objects
        \<lparr>citation_objects = [citation_a, enhanced citation_b], list_objects = [[1]]\<rparr> ! 0
       = citation_objects store_ab ! 0
   \<and> fst (execute_research_plan (quiet_env (\<lambda>k. Inr ''see http://b.gov/q''))
              (plan_of [''Search'', ''Citations'', ''Citations''])
              (parse_requirements [] []) fresh_orch empty_store)
       = Inr \<lparr>search_results =
               [\<lparr>content = ''see http://b.gov/q'', sources = [0],
                 confidence_level = ''high'', conflicts_noted = [],
                 result_quality_score = 0.85\<rparr>],
             reflection_results = [], citations = [0, 0], final_content = []\<rparr>
   \<and> citations \<lparr>search_results =
               [\<lparr>content = ''see http://b.gov/q'', sources = [0],
                 confidence_level = ''high'', conflicts_noted = [],
                 result_quality_score = 0.85\<rparr>],
             reflection_results = [], citations = [0, 0], final_content = []\<rparr>
       = concat (replicate 2 [0])
   \<and> author (citation_objects (snd (snd (execute_research_plan (quiet_env (\<lambda>k. Inr ''see http://b.gov/q''))
              (plan_of [''Search'', ''Citations'', ''Citations''])
              (parse_requirements [] []) fresh_orch empty_store))) ! 0) = Some ''Unknown''
   \<and> publication_date (citation_objects (snd (snd (execute_research_plan (quiet_env (\<lambda>k. Inr ''see http://b.gov/q''))
              (plan_of [''Search'', ''Citations'', ''Citations''])
              (parse_requirements [] []) fresh_orch empty_store))) ! 0) = Some ''2024''"
proof -
  let ?st' = "\<lparr>citation_objects = [citation_a, enhanced citation_b], list_objects = [[1]]\<rparr>"
  let ?X = "(execute_research_plan (quiet_env (\<lambda>k. Inr ''see http://b.gov/q''))
              (plan_of [''Search'', ''Citations'', ''Citations''])
              (parse_requirements [] []) fresh_orch empty_store)"
  let ?res = "\<lparr>search_results =
               [\<lparr>content = ''see http://b.gov/q'', sources = [0],
                 confidence_level = ''high'', conflicts_noted = [],
                 result_quality_score = 0.85\<rparr>],
             reflection_results = [], citations = [0, 0], final_content = []\<rparr>"
  have c: "create_citations (\<lambda>ts. Inr []) 0 store_ab = Inr (0, ?st')"
    by (simp add: create_citations_def store_ab_def enhance_def enhanced_def)
  have f: "fst ?X = Inr ?res"
    by code_simp
  have x: "?X = (Inr ?res, fst (snd ?X), snd (snd ?X))"
    by (subst f [symmetric]) simp
  note t = citations_enhanced_in_place
             [of "\<lambda>ts. Inr []" 0 store_ab 0 ?st'
                 "quiet_env (\<lambda>k. Inr ''see http://b.gov/q'')"
                 "plan_of [''Search'', ''Citations'', ''Citations'']"
                 "parse_requirements [] []" fresh_orch empty_store ?res
                 "fst (snd ?X)" "snd (snd ?X)"]
  from t c have a: "\<forall>q. citation_objects ?st' ! q
                 = (if q \<in> set (list_objects store_ab ! 0)
                        \<and> q < length (citation_objects store_ab)
                    then (citation_objects store_ab ! q)\<lparr>author := Some ''Unknown'',
                                                   publication_date := Some ''2024''\<rparr>
                    else citation_objects store_ab ! q)"
    by blast
  have a1: "citation_objects ?st' ! 1
       = (citation_objects store_ab ! 1)\<lparr>author := Some ''Unknown'',
                                          publication_date := Some ''2024''\<rparr>"
    using a [rule_format, of 1] by (simp add: store_ab_def)
  have a0: "citation_objects ?st' ! 0 = citation_objects store_ab ! 0"
    using a [rule_format, of 0] by (simp add: store_ab_def)
  from t x have b: "citations ?res
            = concat (replicate (length (filter (\<lambda>t. agent t = ''Citations'')
                         (tasks (plan_of [''Search'', ''Citations'', ''Citations'']))))
                        (concat (map sources (search_results ?res))))"
    and d: "\<forall>q \<in> set (citations ?res).
              q < length (citation_objects (snd (snd ?X)))
              \<and> author (citation_objects (snd (snd ?X)) ! q) = Some ''Unknown''
              \<and> publication_date (citation_objects (snd (snd ?X)) ! q) = Some ''2024''"
    by blast+
  from b have b': "citations ?res = concat (replicate 2 [0])"
    by (simp add: plan_of_def numeral_2_eq_2)
  from d have d0: "author (citation_objects (snd (snd ?X)) ! 0) = Some ''Unknown''"
    "publication_date (citation_objects (snd (snd ?X)) ! 0) = Some ''2024''"
    by simp_all
  from c a1 a0 f b' d0 show ?thesis
    by blast
qed

end
